theory Spec2Isabelle
  imports Complex_Main "HOL-Library.Word"
begin

section \<open>The audio visualizer of \<^verbatim>\<open>src/code.c\<close>\<close>

text \<open>
  The C program keeps one global \<^verbatim>\<open>VisualizerState\<close>. The audio thread updates it in
  \<^verbatim>\<open>audio_callback\<close>, the render loop reads and advances it in \<^verbatim>\<open>draw_visualization\<close>;
  both hold the same mutex for the whole update, so each of them is modelled as one
  atomic function from state to state.

  Numbers. \<^verbatim>\<open>float\<close> and \<^verbatim>\<open>double\<close> values are modelled as real numbers and a decimal
  literal denotes its decimal value: rounding, infinities and NaN are outside the model.
  Where the C code would leave the reals (a division \<open>0 / 0\<close>) or would convert a
  floating value that the integer type cannot hold (undefined behaviour), the model
  returns \<open>None\<close>. \<^verbatim>\<open>Uint8\<close>, \<^verbatim>\<open>Sint16\<close> and \<^verbatim>\<open>Uint32\<close> are machine words, \<^verbatim>\<open>M_PI\<close> is \<open>pi\<close>.

  The outside world. \<^verbatim>\<open>SDL_GetTicks()\<close> and \<^verbatim>\<open>rand()\<close> are calls into libraries: the
  values they would return are parameters of the function that calls them. The
  renderer is the list of drawing commands issued so far.
\<close>

subsection \<open>Constants\<close>

definition SCREEN_SIZE :: int where "SCREEN_SIZE = 800"
definition MAX_PARTICLES :: nat where "MAX_PARTICLES = 300"
definition BASE_RADIUS :: int where "BASE_RADIUS = 100"
definition BEAT_THRESHOLD :: real where "BEAT_THRESHOLD = 1.4"

text \<open>\<^verbatim>\<open>RAND_MAX\<close> belongs to the C library; the value is glibc's. The proofs below use only
  that it is positive.\<close>

definition RAND_MAX :: nat where "RAND_MAX = 2147483647"

subsection \<open>Data\<close>

type_synonym Uint8 = "8 word"
type_synonym Sint16 = "16 word"
type_synonym Uint32 = "32 word"

text \<open>The fields \<^verbatim>\<open>x, y, dx, dy\<close> of \<^verbatim>\<open>Particle\<close> carry the prefix \<open>p_\<close>.\<close>

record Particle =
  p_x :: real
  p_y :: real
  p_dx :: real
  p_dy :: real
  lifetime :: int
  alpha :: Uint8

text \<open>The array \<^verbatim>\<open>particles[MAX_PARTICLES]\<close> is a function from the index to the slot; the
  program reads and writes the indices below \<open>MAX_PARTICLES\<close> only.\<close>

record VisualizerState =
  amplitude :: real
  beat_energy :: real
  last_beat :: Uint32
  particles :: "nat \<Rightarrow> Particle"
  hue :: real

text \<open>\<^verbatim>\<open>VisualizerState state = {0}\<close>\<close>

definition zero_particle :: Particle where
  "zero_particle = \<lparr>p_x = 0, p_y = 0, p_dx = 0, p_dy = 0, lifetime = 0, alpha = 0\<rparr>"

definition initial_state :: VisualizerState where
  "initial_state = \<lparr>amplitude = 0, beat_energy = 0, last_beat = 0,
     particles = (\<lambda>i. zero_particle), hue = 0\<rparr>"

subsection \<open>Floating-point helpers of the C library\<close>

text \<open>Conversion of a floating value to an integer discards the fraction.\<close>

definition c_trunc :: "real \<Rightarrow> int" where
  "c_trunc v = (if 0 \<le> v then \<lfloor>v\<rfloor> else \<lceil>v\<rceil>)"

text \<open>\<^verbatim>\<open>fmod(a, b)\<close> for \<open>b \<noteq> 0\<close>: the remainder has the sign of \<open>a\<close>. The program calls it
  with the divisors 360 and 2 only.\<close>

definition fmod :: "real \<Rightarrow> real \<Rightarrow> real" where
  "fmod a b = a - b * of_int (c_trunc (a / b))"

text \<open>Conversions that are undefined when the truncated value does not fit.\<close>

definition float_to_Uint8 :: "real \<Rightarrow> Uint8 option" where
  "float_to_Uint8 v = (if -1 < v \<and> v < 256 then Some (word_of_int (c_trunc v)) else None)"

definition float_to_int :: "real \<Rightarrow> int option" where
  "float_to_int v =
     (if -2147483649 < v \<and> v < 2147483648 then Some (c_trunc v) else None)"

subsection \<open>\<^verbatim>\<open>HSLtoRGB\<close>\<close>

text \<open>The three assignments \<^verbatim>\<open>*r = .. * 255; *g = .. * 255; *b = .. * 255\<close> of a branch, each a
  conversion to \<^verbatim>\<open>Uint8\<close>.\<close>

definition store_rgb :: "real \<Rightarrow> real \<Rightarrow> real \<Rightarrow> (Uint8 \<times> Uint8 \<times> Uint8) option" where
  "store_rgb r g b =
     (case (float_to_Uint8 (r * 255), float_to_Uint8 (g * 255), float_to_Uint8 (b * 255)) of
        (Some r8, Some g8, Some b8) \<Rightarrow> Some (r8, g8, b8)
      | _ \<Rightarrow> None)"

definition HSLtoRGB :: "real \<Rightarrow> real \<Rightarrow> real \<Rightarrow> (Uint8 \<times> Uint8 \<times> Uint8) option" where
  "HSLtoRGB h0 s l =
     (let h = fmod h0 360;
          c = (1 - \<bar>2 * l - 1\<bar>) * s;
          x = c * (1 - \<bar>fmod (h / 60) 2 - 1\<bar>);
          m = l - c / 2
      in if h < 60 then store_rgb (c + m) (x + m) m
         else if h < 120 then store_rgb (x + m) (c + m) m
         else if h < 180 then store_rgb m (c + m) (x + m)
         else if h < 240 then store_rgb m (x + m) (c + m)
         else store_rgb (x + m) m (c + m))"

subsection \<open>\<^verbatim>\<open>rand_range\<close>\<close>

text \<open>The argument \<open>r\<close> is the value returned by the call of \<^verbatim>\<open>rand()\<close>.\<close>

definition rand_range :: "nat \<Rightarrow> real \<Rightarrow> real \<Rightarrow> real" where
  "rand_range r lo hi = lo + real r / (real RAND_MAX / (hi - lo))"

subsection \<open>\<^verbatim>\<open>audio_callback\<close>\<close>

text \<open>Lines 57 to 65: the mean rectified amplitude of the buffer. The buffer is given as
  its \<^verbatim>\<open>Sint16\<close> samples, \<open>num_samples\<close> is their number. With no sample the division is
  \<open>0 / 0\<close>. The variable \<^verbatim>\<open>sum\<close> is called \<open>acc\<close>.\<close>

fun sum_samples :: "Sint16 list \<Rightarrow> real \<Rightarrow> real" where
  "sum_samples [] acc = acc"
| "sum_samples (sample # samples) acc =
     sum_samples samples (acc + \<bar>real_of_int (sint sample)\<bar> / 32768)"

definition buffer_energy :: "Sint16 list \<Rightarrow> real option" where
  "buffer_energy samples =
     (let num_samples = length samples;
          acc = sum_samples samples 0
      in if num_samples = 0 then None else Some (acc / real num_samples))"

text \<open>Lines 74 to 87: the scan for the first slot with \<open>lifetime \<le> 0\<close>, over the indices
  in order, leaving the loop at the first hit. The three numbers are the results of the
  three calls of \<^verbatim>\<open>rand()\<close>, in the order of the calls.\<close>

type_synonym rand_draws = "nat \<times> nat \<times> nat"

definition new_particle :: "rand_draws \<Rightarrow> Particle" where
  "new_particle rnd =
     (case rnd of (r1, r2, r3) \<Rightarrow>
        let angle = rand_range r1 0 (pi * 2);
            speed = rand_range r2 1 3
        in \<lparr>p_x = real_of_int (SCREEN_SIZE div 2),
            p_y = real_of_int (SCREEN_SIZE div 2),
            p_dx = cos angle * speed,
            p_dy = sin angle * speed,
            lifetime = int r3 mod 30 + 20,
            alpha = 255\<rparr>)"

fun spawn_loop :: "nat list \<Rightarrow> rand_draws \<Rightarrow> (nat \<Rightarrow> Particle) \<Rightarrow> (nat \<Rightarrow> Particle)" where
  "spawn_loop [] rnd ps = ps"
| "spawn_loop (i # idxs) rnd ps =
     (if lifetime (ps i) \<le> 0 then ps(i := new_particle rnd)
      else spawn_loop idxs rnd ps)"

text \<open>Lines 67 to 91, under the mutex. \<open>now\<close> is the value of \<^verbatim>\<open>SDL_GetTicks()\<close>. The C
  function returns nothing; the model returns, beside the new state, whether the branch
  of line 71 was taken.\<close>

definition audio_update ::
  "Uint32 \<Rightarrow> rand_draws \<Rightarrow> real \<Rightarrow> VisualizerState \<Rightarrow> bool \<times> VisualizerState" where
  "audio_update now rnd energy s =
     (let s1 = s\<lparr>amplitude := energy\<rparr>;
          s2 = s1\<lparr>beat_energy := 0.9 * beat_energy s1 + 0.1 * energy\<rparr>;
          onset = (energy > beat_energy s2 * BEAT_THRESHOLD);
          s3 = (if onset
                then (s2\<lparr>last_beat := now\<rparr>)
                       \<lparr>particles := spawn_loop [0..<MAX_PARTICLES] rnd (particles s2)\<rparr>
                else s2)
      in (onset, s3\<lparr>hue := fmod (hue s3 + 0.3) 360\<rparr>))"

definition audio_callback ::
  "Uint32 \<Rightarrow> rand_draws \<Rightarrow> Sint16 list \<Rightarrow> VisualizerState \<Rightarrow> (bool \<times> VisualizerState) option" where
  "audio_callback now rnd samples s =
     (case buffer_energy samples of
        None \<Rightarrow> None
      | Some energy \<Rightarrow> Some (audio_update now rnd energy s))"

text \<open>The audio device calls \<^verbatim>\<open>audio_callback\<close> once for every buffer. Each element of the
  list is one call: the clock, the random numbers and the buffer. The result collects
  the onsets of the calls in order.\<close>

fun run_callbacks ::
  "(Uint32 \<times> rand_draws \<times> Sint16 list) list \<Rightarrow> VisualizerState \<Rightarrow>
     (bool list \<times> VisualizerState) option" where
  "run_callbacks [] s = Some ([], s)"
| "run_callbacks ((now, rnd, samples) # calls) s =
     (case audio_callback now rnd samples s of
        None \<Rightarrow> None
      | Some (onset, s1) \<Rightarrow>
          (case run_callbacks calls s1 of
             None \<Rightarrow> None
           | Some (onsets, s2) \<Rightarrow> Some (onset # onsets, s2)))"

subsection \<open>Drawing\<close>

text \<open>The calls to the renderer that the program makes. \<^verbatim>\<open>SDL_RenderDrawPoint\<close> takes
  \<^verbatim>\<open>int\<close> coordinates and \<^verbatim>\<open>SDL_SetRenderDrawColor\<close> takes \<^verbatim>\<open>Uint8\<close> channels.\<close>

datatype draw_cmd =
    SetRenderDrawColor Uint8 Uint8 Uint8 Uint8
  | RenderClear
  | RenderDrawPoint int int

type_synonym SDL_Renderer = "draw_cmd list"

text \<open>\<^verbatim>\<open>draw_circle\<close>: the loop \<^verbatim>\<open>for(int i=0; i<360; i+=2)\<close>.\<close>

function draw_circle_loop ::
  "nat \<Rightarrow> Uint8 \<times> Uint8 \<times> Uint8 \<Rightarrow> real \<Rightarrow> SDL_Renderer \<Rightarrow> SDL_Renderer option" where
  "draw_circle_loop i rgb radius renderer =
     (if i < 360 then
        (let angle = real i * pi / 180 in
         case (float_to_int (real_of_int (SCREEN_SIZE div 2) + cos angle * radius),
               float_to_int (real_of_int (SCREEN_SIZE div 2) + sin angle * radius)) of
           (Some x, Some y) \<Rightarrow>
             (case rgb of (r, g, b) \<Rightarrow>
                draw_circle_loop (i + 2) rgb radius
                  (renderer @ [SetRenderDrawColor r g b 255, RenderDrawPoint x y]))
         | _ \<Rightarrow> None)
      else Some renderer)"
  by pat_completeness auto
termination
  by (relation "measure (\<lambda>(i, rgb, radius, renderer). 360 - i)") auto

declare draw_circle_loop.simps [simp del]

definition draw_circle :: "VisualizerState \<Rightarrow> SDL_Renderer \<Rightarrow> real \<Rightarrow> SDL_Renderer option" where
  "draw_circle s renderer radius =
     (case HSLtoRGB (hue s) 0.8 0.6 of
        None \<Rightarrow> None
      | Some rgb \<Rightarrow> draw_circle_loop 0 rgb radius renderer)"

text \<open>\<^verbatim>\<open>draw_particles\<close>: lines 117 to 120 change the slot, lines 122 to 125 draw it; the
  call of \<^verbatim>\<open>SDL_RenderDrawPoint\<close> converts the \<^verbatim>\<open>float\<close> position to \<^verbatim>\<open>int\<close>.\<close>

definition advance_particle :: "Particle \<Rightarrow> Particle" where
  "advance_particle p =
     (let p1 = p\<lparr>p_x := p_x p + p_dx p\<rparr>;
          p2 = p1\<lparr>p_y := p_y p1 + p_dy p1\<rparr>;
          p3 = p2\<lparr>lifetime := lifetime p2 - 1\<rparr>
      in p3\<lparr>alpha := alpha p3 - 8\<rparr>)"

fun draw_particles_loop ::
  "nat list \<Rightarrow> Uint8 \<times> Uint8 \<times> Uint8 \<Rightarrow> SDL_Renderer \<times> (nat \<Rightarrow> Particle) \<Rightarrow>
     (SDL_Renderer \<times> (nat \<Rightarrow> Particle)) option" where
  "draw_particles_loop [] rgb (renderer, ps) = Some (renderer, ps)"
| "draw_particles_loop (i # idxs) rgb (renderer, ps) =
     (if lifetime (ps i) > 0 then
        (let p = advance_particle (ps i) in
         case (float_to_int (p_x p), float_to_int (p_y p)) of
           (Some x, Some y) \<Rightarrow>
             (case rgb of (r, g, b) \<Rightarrow>
                draw_particles_loop idxs rgb
                  (renderer @ [SetRenderDrawColor r g b (alpha p), RenderDrawPoint x y],
                   ps(i := p)))
         | _ \<Rightarrow> None)
      else draw_particles_loop idxs rgb (renderer, ps))"

definition draw_particles ::
  "VisualizerState \<Rightarrow> SDL_Renderer \<Rightarrow> (SDL_Renderer \<times> VisualizerState) option" where
  "draw_particles s renderer =
     (case HSLtoRGB (hue s) 0.8 0.7 of
        None \<Rightarrow> None
      | Some rgb \<Rightarrow>
          (case draw_particles_loop [0..<MAX_PARTICLES] rgb (renderer, particles s) of
             None \<Rightarrow> None
           | Some (renderer1, ps) \<Rightarrow> Some (renderer1, s\<lparr>particles := ps\<rparr>)))"

text \<open>\<^verbatim>\<open>draw_visualization\<close>, with \<open>now\<close> the value of \<^verbatim>\<open>SDL_GetTicks()\<close>. The difference of the
  two \<^verbatim>\<open>Uint32\<close> clock values is taken in \<^verbatim>\<open>Uint32\<close> and then converted.\<close>

definition ring_radius :: "Uint32 \<Rightarrow> VisualizerState \<Rightarrow> real" where
  "ring_radius now s =
     (let beat_strength = real (unat (now - last_beat s)) / 1000
      in real_of_int BASE_RADIUS + amplitude s * 150 - beat_strength * 50)"

definition draw_visualization ::
  "Uint32 \<Rightarrow> VisualizerState \<Rightarrow> SDL_Renderer \<Rightarrow> (SDL_Renderer \<times> VisualizerState) option" where
  "draw_visualization now s renderer =
     (let renderer1 = renderer @ [SetRenderDrawColor 20 20 30 255, RenderClear];
          radius = ring_radius now s
      in case draw_circle s renderer1 radius of
           None \<Rightarrow> None
         | Some renderer2 \<Rightarrow> draw_particles s renderer2)"

text \<open>A number of successive frames of the particle advance.\<close>

fun draw_particles_steps ::
  "nat \<Rightarrow> VisualizerState \<Rightarrow> SDL_Renderer \<Rightarrow> (SDL_Renderer \<times> VisualizerState) option" where
  "draw_particles_steps 0 s renderer = Some (renderer, s)"
| "draw_particles_steps (Suc n) s renderer =
     (case draw_particles s renderer of
        None \<Rightarrow> None
      | Some (renderer1, s1) \<Rightarrow> draw_particles_steps n s1 renderer1)"

subsection \<open>The states of a run\<close>

text \<open>The two threads take turns under the mutex: from the zero-initialised state every
  step is one invocation of \<open>audio_callback\<close>, with results of \<^verbatim>\<open>rand()\<close> in
  \<open>[0, RAND_MAX]\<close>, or one frame of \<open>draw_visualization\<close>.\<close>

inductive reachable :: "VisualizerState \<Rightarrow> bool" where
  start: "reachable initial_state"
| audio: "reachable s \<Longrightarrow> r1 \<le> RAND_MAX \<Longrightarrow> r2 \<le> RAND_MAX \<Longrightarrow>
          audio_callback now (r1, r2, r3) samples s = Some (onset, s') \<Longrightarrow> reachable s'"
| frame: "reachable s \<Longrightarrow> draw_visualization now s renderer = Some (renderer', s') \<Longrightarrow>
          reachable s'"

text \<open>The bounds that hold along a run: an active particle moves at most 3 pixels a frame
  and, moving for its remaining lifetime, stays within 147 pixels of the centre of the
  screen; amplitude and baseline lie in \<open>[0, 1]\<close> and the hue in \<open>[0, 360)\<close>.\<close>

definition particle_in_flight :: "Particle \<Rightarrow> bool" where
  "particle_in_flight p \<longleftrightarrow>
     \<bar>p_dx p\<bar> \<le> 3 \<and> \<bar>p_dy p\<bar> \<le> 3 \<and>
     \<bar>p_x p - 400\<bar> + 3 * real_of_int (lifetime p) \<le> 147 \<and>
     \<bar>p_y p - 400\<bar> + 3 * real_of_int (lifetime p) \<le> 147"

definition state_in_range :: "VisualizerState \<Rightarrow> bool" where
  "state_in_range s \<longleftrightarrow>
     0 \<le> amplitude s \<and> amplitude s \<le> 1 \<and>
     0 \<le> beat_energy s \<and> beat_energy s \<le> 1 \<and>
     0 \<le> hue s \<and> hue s < 360 \<and>
     (\<forall>i<MAX_PARTICLES. 0 < lifetime (particles s i) \<longrightarrow> particle_in_flight (particles s i))"

subsection \<open>The six-sector conversion of the specification\<close>

text \<open>The conversion as the specification words it: the hue wrapped modulo 360, chroma
  \<open>c\<close>, secondary \<open>x\<close> with \<open>(h / 60) mod 2\<close>, offset \<open>m\<close>, and one assignment of
  \<open>(c, x, 0)\<close> to the channels for each of the six sectors of 60 degrees. It is the
  reference that \<open>HSLtoRGB\<close> is compared with.\<close>

definition real_mod :: "real \<Rightarrow> real \<Rightarrow> real" where
  "real_mod a b = a - b * of_int \<lfloor>a / b\<rfloor>"

definition six_sector_HSL :: "real \<Rightarrow> real \<Rightarrow> real \<Rightarrow> (Uint8 \<times> Uint8 \<times> Uint8) option" where
  "six_sector_HSL h0 s l =
     (let h = real_mod h0 360;
          c = (1 - \<bar>2 * l - 1\<bar>) * s;
          x = c * (1 - \<bar>real_mod (h / 60) 2 - 1\<bar>);
          m = l - c / 2
      in if h < 60 then store_rgb (c + m) (x + m) (0 + m)
         else if h < 120 then store_rgb (x + m) (c + m) (0 + m)
         else if h < 180 then store_rgb (0 + m) (c + m) (x + m)
         else if h < 240 then store_rgb (0 + m) (x + m) (c + m)
         else if h < 300 then store_rgb (x + m) (0 + m) (c + m)
         else store_rgb (c + m) (0 + m) (x + m))"

section \<open>Properties of the audio callback\<close>

subsection \<open>The buffer energy\<close>

lemma sum_samples_replicate:
  "sum_samples (replicate n w) acc = acc + real n * (\<bar>real_of_int (sint w)\<bar> / 32768)"
  by (induction n arbitrary: acc) (simp_all add: algebra_simps)

lemma buffer_energy_replicate:
  "0 < n \<Longrightarrow> buffer_energy (replicate n w) = Some (\<bar>real_of_int (sint w)\<bar> / 32768)"
  by (simp add: buffer_energy_def sum_samples_replicate)

lemma sum_samples_ge: "acc \<le> sum_samples samples acc"
proof (induction samples arbitrary: acc)
  case Nil
  show ?case by simp
next
  case (Cons w ws)
  have "acc \<le> acc + \<bar>real_of_int (sint w)\<bar> / 32768" by simp
  also have "\<dots> \<le> sum_samples ws (acc + \<bar>real_of_int (sint w)\<bar> / 32768)" by (rule Cons.IH)
  finally show ?case by simp
qed

lemma buffer_energy_nonneg: "buffer_energy samples = Some energy \<Longrightarrow> 0 \<le> energy"
  using sum_samples_ge [of 0 samples]
  by (auto simp: buffer_energy_def Let_def split: if_splits)

lemma buffer_energy_Some:
  "samples \<noteq> [] \<Longrightarrow> \<exists>energy. buffer_energy samples = Some energy \<and> 0 \<le> energy"
  using buffer_energy_nonneg [of samples] by (simp add: buffer_energy_def)

lemma sum_samples_zero:
  "\<forall>w \<in> set samples. w = 0 \<Longrightarrow> sum_samples samples acc = acc"
  by (induction samples arbitrary: acc) simp_all

lemma buffer_energy_zero:
  "samples \<noteq> [] \<Longrightarrow> \<forall>w \<in> set samples. w = 0 \<Longrightarrow> buffer_energy samples = Some 0"
  by (simp add: buffer_energy_def sum_samples_zero)

lemma sint_Sint16_bound: "\<bar>real_of_int (sint (w :: Sint16))\<bar> \<le> 32768"
proof -
  have "- (2 ^ (LENGTH(16) - 1)) \<le> sint w" by (rule sint_ge)
  moreover have "sint w < 2 ^ (LENGTH(16) - 1)" by (rule sint_lt)
  ultimately have "\<bar>sint w\<bar> \<le> 32768" by simp
  then have "real_of_int \<bar>sint w\<bar> \<le> real_of_int 32768" by (simp only: of_int_le_iff)
  then show ?thesis by simp
qed

lemma sum_samples_le: "sum_samples samples acc \<le> acc + real (length samples)"
proof (induction samples arbitrary: acc)
  case Nil
  show ?case by simp
next
  case (Cons w ws)
  have "\<bar>real_of_int (sint w)\<bar> / 32768 \<le> 1" using sint_Sint16_bound [of w] by simp
  moreover have "sum_samples ws (acc + \<bar>real_of_int (sint w)\<bar> / 32768)
                   \<le> acc + \<bar>real_of_int (sint w)\<bar> / 32768 + real (length ws)"
    by (rule Cons.IH)
  ultimately show ?case by simp
qed

lemma buffer_energy_le_one: "buffer_energy samples = Some energy \<Longrightarrow> energy \<le> 1"
  using sum_samples_le [of samples 0]
  by (auto simp: buffer_energy_def Let_def split: if_splits)

subsection \<open>The scan for a free slot\<close>

lemma spawn_loop_full:
  "\<forall>i \<in> set idxs. 0 < lifetime (ps i) \<Longrightarrow> spawn_loop idxs rnd ps = ps"
  by (induction idxs) simp_all

lemma spawn_loop_first:
  "\<forall>j \<in> set pre. 0 < lifetime (ps j) \<Longrightarrow> lifetime (ps i) \<le> 0 \<Longrightarrow>
   spawn_loop (pre @ i # post) rnd ps = ps(i := new_particle rnd)"
  by (induction pre) simp_all

lemma spawn_loop_upt_first:
  assumes "i < n" and "lifetime (ps i) \<le> 0" and "\<forall>j<i. 0 < lifetime (ps j)"
  shows "spawn_loop [0..<n] rnd ps = ps(i := new_particle rnd)"
proof -
  have "[0..<n] = [0..<i] @ i # [Suc i..<n]"
    using assms(1) by (metis less_imp_le_nat upt_add_eq_append upt_conv_Cons le0 le_add_diff_inverse plus_nat.add_0)
  moreover have "\<forall>j \<in> set [0..<i]. 0 < lifetime (ps j)"
    using assms(3) by simp
  ultimately show ?thesis
    using spawn_loop_first [of "[0..<i]" ps i "[Suc i..<n]" rnd] assms(2) by simp
qed

lemma spawn_loop_upt_full:
  "\<forall>i<n. 0 < lifetime (ps i) \<Longrightarrow> spawn_loop [0..<n] rnd ps = ps"
  by (rule spawn_loop_full) simp

lemma spawn_loop_slot:
  "spawn_loop idxs rnd ps i = ps i \<or> spawn_loop idxs rnd ps i = new_particle rnd"
  by (induction idxs) simp_all

subsection \<open>The new particle\<close>

lemma RAND_MAX_pos: "0 < RAND_MAX"
  by (simp add: RAND_MAX_def)

lemma rand_range_bounds:
  assumes "r \<le> RAND_MAX" and "lo \<le> hi"
  shows "lo \<le> rand_range r lo hi" and "rand_range r lo hi \<le> hi"
proof -
  have rm: "0 < real RAND_MAX" using RAND_MAX_pos by simp
  have eq: "rand_range r lo hi = lo + real r / real RAND_MAX * (hi - lo)"
    by (simp add: rand_range_def)
  have f0: "0 \<le> real r / real RAND_MAX" by simp
  have f1: "real r / real RAND_MAX \<le> 1" using assms(1) rm by simp
  have d: "0 \<le> hi - lo" using assms(2) by simp
  have "0 \<le> real r / real RAND_MAX * (hi - lo)" using f0 d by simp
  then show "lo \<le> rand_range r lo hi" unfolding eq by simp
  have "real r / real RAND_MAX * (hi - lo) \<le> 1 * (hi - lo)"
    using f1 d by (rule mult_right_mono)
  then show "rand_range r lo hi \<le> hi" unfolding eq by simp
qed




lemma new_particle_fields:
  "new_particle (r1, r2, r3) =
     \<lparr>p_x = 400, p_y = 400,
      p_dx = cos (rand_range r1 0 (pi * 2)) * rand_range r2 1 3,
      p_dy = sin (rand_range r1 0 (pi * 2)) * rand_range r2 1 3,
      lifetime = int r3 mod 30 + 20, alpha = 255\<rparr>"
  by (simp add: new_particle_def SCREEN_SIZE_def Let_def)

text \<open>The direction of the full turn is that of the angle 0.\<close>

lemma direction_in_turn:
  assumes "0 \<le> a" and "a \<le> 2 * pi"
  shows "\<exists>t. 0 \<le> t \<and> t < 2 * pi \<and> cos t = cos a \<and> sin t = sin a"
proof (cases "a = 2 * pi")
  case True
  then have "cos 0 = cos a \<and> sin 0 = sin a" by simp
  then show ?thesis using pi_gt_zero by (intro exI [of _ 0]) simp
next
  case False
  then show ?thesis using assms by (intro exI [of _ a]) simp
qed

subsection \<open>One invocation\<close>

lemma audio_callback_SomeD:
  "audio_callback now rnd samples s = Some (onset, s') \<Longrightarrow>
   \<exists>energy. buffer_energy samples = Some energy \<and> audio_update now rnd energy s = (onset, s')"
  by (auto simp: audio_callback_def split: option.splits)

lemma audio_update_fields:
  "audio_update now rnd energy s = (onset, s') \<Longrightarrow>
     amplitude s' = energy \<and>
     beat_energy s' = 0.9 * beat_energy s + 0.1 * energy \<and>
     hue s' = fmod (hue s + 0.3) 360 \<and>
     onset = ((0.9 * beat_energy s + 0.1 * energy) * BEAT_THRESHOLD < energy) \<and>
     last_beat s' = (if onset then now else last_beat s) \<and>
     particles s' = (if onset then spawn_loop [0..<MAX_PARTICLES] rnd (particles s) else particles s)"
  by (auto simp: audio_update_def Let_def)

lemma audio_update_slot:
  assumes "audio_update now rnd energy s = (onset, s')"
  shows "particles s' i = particles s i \<or> particles s' i = new_particle rnd"
  using audio_update_fields [OF assms] spawn_loop_slot [of "[0..<MAX_PARTICLES]" rnd "particles s" i]
  by (cases onset) simp_all

lemma fmod_congruent: "\<exists>k::int. fmod a b = a - b * real_of_int k"
  unfolding fmod_def by blast

subsection \<open>The onset test\<close>

text \<open>
  Claim C1, as amended. Line 69 overwrites \<open>beat_energy\<close> with the moving average
  \<open>0.9 * beat_energy + 0.1 * energy\<close> before line 71 reads it. So for every buffer with
  at least one sample the callback returns, and a beat onset is signalled if and only if
  the energy of the buffer exceeds 1.4 times the value of \<open>beat_energy\<close> after the update
  of this invocation: the comparison uses the post-update baseline. In terms of the
  baseline from before the invocation the test is \<open>43 * energy > 63 * beat_energy\<close>, a
  factor of about 1.465.
\<close>

theorem onset_iff_post_update:
  assumes "buffer_energy samples = Some energy"
  shows "\<exists>onset s'. audio_callback now rnd samples s = Some (onset, s') \<and>
           beat_energy s' = 0.9 * beat_energy s + 0.1 * energy \<and>
           (onset \<longleftrightarrow> energy > 1.4 * beat_energy s') \<and>
           (onset \<longleftrightarrow> 43 * energy > 63 * beat_energy s)"
proof -
  obtain onset s' where u: "audio_update now rnd energy s = (onset, s')"
    by (cases "audio_update now rnd energy s") auto
  note f = audio_update_fields [OF u]
  have b: "beat_energy s' = 0.9 * beat_energy s + 0.1 * energy" using f by simp
  have o: "onset \<longleftrightarrow> energy > 1.4 * beat_energy s'"
    using f by (simp add: BEAT_THRESHOLD_def mult.commute)
  have "(energy > 1.4 * beat_energy s') \<longleftrightarrow> 43 * energy > 63 * beat_energy s"
    unfolding b by (auto simp: field_simps)
  with o have "onset \<longleftrightarrow> 43 * energy > 63 * beat_energy s" by simp
  with b o show ?thesis
    using assms u by (simp add: audio_callback_def)
qed

text \<open>The initial state and a buffer of 2048 samples of value 16384, of energy 0.5.\<close>

theorem onset_iff_post_update_witness:
  "buffer_energy (replicate 2048 16384) = Some (1 / 2) \<and>
   (\<exists>onset s'. audio_callback 1000 (0, 0, 0) (replicate 2048 16384) initial_state = Some (onset, s') \<and>
           beat_energy s' = 0.9 * beat_energy initial_state + 0.1 * (1 / 2) \<and>
           (onset \<longleftrightarrow> 1 / 2 > 1.4 * beat_energy s') \<and>
           (onset \<longleftrightarrow> 43 * (1 / 2) > 63 * beat_energy initial_state))"
proof -
  have h: "buffer_energy (replicate 2048 16384) = Some (1 / 2)"
    by (simp add: buffer_energy_replicate)
  show ?thesis
    using h onset_iff_post_update [OF h, of 1000 "(0, 0, 0)" initial_state] by simp
qed

text \<open>
  Claim C1 as stated compares with the baseline from before the update. A run from the
  initial state: a first buffer of 2048 samples of value -32768 (energy 1) signals the
  cold-start onset and leaves a baseline of 0.1. The second buffer, 2048 samples of
  value 4700, has the energy 1175/8192, about 0.1434, above 1.4 times the old baseline
  (0.14); yet no onset is signalled, since the new baseline is about 0.1043 and 1.4
  times it about 0.1461.
\<close>

theorem pre_update_threshold_counterexample:
  "audio_callback 0 (0, 0, 0) (replicate 2048 (- 32768)) initial_state =
     Some (True, initial_state\<lparr>amplitude := 1, beat_energy := 1 / 10,
        particles := (particles initial_state)
          (0 := \<lparr>p_x = 400, p_y = 400, p_dx = 1, p_dy = 0, lifetime = 20, alpha = 255\<rparr>),
        hue := 3 / 10\<rparr>) \<and>
   buffer_energy (replicate 2048 4700) = Some (1175 / 8192) \<and>
   (1175 / 8192 :: real) > 1.4 * (1 / 10) \<and>
   map_option fst (audio_callback 46 (0, 0, 0) (replicate 2048 4700)
     (initial_state\<lparr>amplitude := 1, beat_energy := 1 / 10,
        particles := (particles initial_state)
          (0 := \<lparr>p_x = 400, p_y = 400, p_dx = 1, p_dy = 0, lifetime = 20, alpha = 255\<rparr>),
        hue := 3 / 10\<rparr>)) = Some False"
  by (simp add: audio_callback_def buffer_energy_replicate audio_update_def Let_def
      BEAT_THRESHOLD_def initial_state_def MAX_PARTICLES_def upt_rec [of 0 "numeral n" for n]
      zero_particle_def new_particle_def rand_range_def SCREEN_SIZE_def fmod_def c_trunc_def)

text \<open>
  Claim C3. From a state with \<open>beat_energy = 0\<close>, the first invocation on a buffer of
  positive energy signals a beat onset (and records the clock in \<open>last_beat\<close>).
\<close>

theorem first_nonzero_buffer_onset:
  assumes "beat_energy s = 0" and "buffer_energy samples = Some energy" and "0 < energy"
  shows "\<exists>s'. audio_callback now rnd samples s = Some (True, s') \<and> last_beat s' = now"
  using assms
  by (simp add: audio_callback_def audio_update_def Let_def BEAT_THRESHOLD_def)

text \<open>The initial state and a buffer of energy 0.5.\<close>

theorem first_nonzero_buffer_onset_witness:
  "beat_energy initial_state = 0 \<and> buffer_energy (replicate 2048 16384) = Some (1 / 2) \<and>
   (0::real) < 1 / 2 \<and>
   (\<exists>s'. audio_callback 1000 (0, 0, 0) (replicate 2048 16384) initial_state = Some (True, s') \<and>
          last_beat s' = 1000)"
proof -
  have h1: "beat_energy initial_state = 0" by (simp add: initial_state_def)
  have h2: "buffer_energy (replicate 2048 16384) = Some (1 / 2)"
    by (simp add: buffer_energy_replicate)
  have h3: "(0::real) < 1 / 2" by simp
  show ?thesis
    using h1 h2 h3 first_nonzero_buffer_onset [OF h1 h2 h3, of 1000 "(0, 0, 0)"] by blast
qed

subsection \<open>The moving average under a constant energy\<close>

lemma ema_power_threshold: "(2 / 7 < (9 / 10 :: real) ^ Suc j) = (j < 11)"
proof (cases "j < 11")
  case True
  then have "Suc j \<le> 11" by simp
  then have "(9 / 10 :: real) ^ 11 \<le> (9 / 10) ^ Suc j"
    by (intro power_decreasing) simp_all
  moreover have "2 / 7 < (9 / 10 :: real) ^ 11" by (simp add: power_divide)
  ultimately show ?thesis using True by linarith
next
  case False
  then have "12 \<le> Suc j" by simp
  then have "(9 / 10 :: real) ^ Suc j \<le> (9 / 10) ^ 12"
    by (intro power_decreasing) simp_all
  moreover have "(9 / 10 :: real) ^ 12 < 2 / 7" by (simp add: power_divide)
  ultimately show ?thesis using False by linarith
qed

lemma audio_update_constant_energy:
  assumes "0 < E" and "beat_energy s = E * (1 - (9 / 10) ^ j)"
  shows "fst (audio_update now rnd E s) = (j < 11)"
    and "beat_energy (snd (audio_update now rnd E s)) = E * (1 - (9 / 10) ^ Suc j)"
proof -
  have b: "0.9 * beat_energy s + 0.1 * E = E * (1 - (9 / 10) ^ Suc j)"
    using assms(2) by (simp add: algebra_simps)
  show "beat_energy (snd (audio_update now rnd E s)) = E * (1 - (9 / 10) ^ Suc j)"
    using b by (simp add: audio_update_def Let_def)
  have "fst (audio_update now rnd E s) = ((0.9 * beat_energy s + 0.1 * E) * BEAT_THRESHOLD < E)"
    by (simp add: audio_update_def Let_def)
  also have "\<dots> = (E * (1 - (9 / 10) ^ Suc j) * (14 / 10) < E)"
    unfolding b BEAT_THRESHOLD_def by simp
  also have "\<dots> = ((1 - (9 / 10) ^ Suc j) * (14 / 10) < (1::real))"
    using assms(1) by (simp add: mult.assoc del: power_Suc)
  also have "\<dots> = (2 / 7 < (9 / 10 :: real) ^ Suc j)"
    by (auto simp del: power_Suc simp: field_simps)
  also have "\<dots> = (j < 11)" by (rule ema_power_threshold)
  finally show "fst (audio_update now rnd E s) = (j < 11)" .
qed

lemma run_callbacks_constant_energy:
  assumes "0 < E"
    and "\<forall>c \<in> set calls. buffer_energy (snd (snd c)) = Some E"
    and "beat_energy s = E * (1 - (9 / 10) ^ j)"
  shows "\<exists>s'. run_callbacks calls s = Some (map (\<lambda>k. j + k < 11) [0..<length calls], s')"
  using assms(2,3)
proof (induction calls arbitrary: s j)
  case Nil
  show ?case by simp
next
  case (Cons c calls)
  obtain now rnd samples where c: "c = (now, rnd, samples)" by (cases c) auto
  have e: "buffer_energy samples = Some E" using Cons.prems(1) c by simp
  obtain onset s1 where u: "audio_update now rnd E s = (onset, s1)" by (cases "audio_update now rnd E s") auto
  have onset: "onset = (j < 11)"
    using audio_update_constant_energy(1) [OF assms(1) Cons.prems(2), of now rnd] u by simp
  have b1: "beat_energy s1 = E * (1 - (9 / 10) ^ Suc j)"
    using audio_update_constant_energy(2) [OF assms(1) Cons.prems(2), of now rnd] u by simp
  have "\<forall>c \<in> set calls. buffer_energy (snd (snd c)) = Some E" using Cons.prems(1) by simp
  from Cons.IH [OF this b1] obtain s' where
    r: "run_callbacks calls s1 = Some (map (\<lambda>k. Suc j + k < 11) [0..<length calls], s')" by blast
  have m: "map (\<lambda>k. j + k < 11) [0..<length (c # calls)]
             = (j < 11) # map (\<lambda>k. Suc j + k < 11) [0..<length calls]"
    by (simp only: length_Cons map_upt_Suc add_Suc add_Suc_right add_0_right)
  show ?case
    unfolding m using c e u r onset by (simp add: audio_callback_def)
qed

text \<open>
  Claim C2, as amended. For every constant \<open>E > 0\<close>, when the callback is invoked
  repeatedly on buffers of energy \<open>E\<close>, starting with \<open>beat_energy = 0\<close>, an onset is
  signalled on each of the first 11 invocations and on no later one: after \<open>k\<close> calls
  the baseline is \<open>E * (1 - 0.9 ^ k)\<close>, and 1.4 times it stays below \<open>E\<close> up to \<open>k = 11\<close>.
\<close>

theorem constant_energy_onsets:
  assumes "0 < E"
    and "\<forall>c \<in> set calls. buffer_energy (snd (snd c)) = Some E"
    and "beat_energy s = 0"
  shows "\<exists>s'. run_callbacks calls s = Some (map (\<lambda>k. k < 11) [0..<length calls], s')"
  using run_callbacks_constant_energy [OF assms(1,2), of s 0] assms(3) by simp

text \<open>Thirteen buffers of energy 0.5 from the initial state: eleven onsets, then none.\<close>

theorem constant_energy_onsets_witness:
  "\<exists>s'. run_callbacks (replicate 13 (0, (0, 0, 0), replicate 2048 16384)) initial_state
     = Some ([True, True, True, True, True, True, True, True, True, True, True, False, False], s')"
proof -
  have h1: "(0::real) < 1 / 2" by simp
  have h2: "\<forall>c \<in> set (replicate 13 (0 :: Uint32, (0, 0, 0) :: rand_draws, replicate 2048 (16384 :: Sint16))).
              buffer_energy (snd (snd c)) = Some (1 / 2)"
    by (simp add: buffer_energy_replicate)
  have h3: "beat_energy initial_state = 0" by (simp add: initial_state_def)
  have "map (\<lambda>k. k < 11) [0..<13]
     = [True, True, True, True, True, True, True, True, True, True, True, False, False]"
    by (simp add: upt_rec)
  then show ?thesis
    using constant_energy_onsets [OF h1 h2 h3] by simp
qed

text \<open>
  Claim C2 as stated allows no onset after the first invocation. Two buffers of 2048
  samples of value 16384 from the initial state signal an onset each.
\<close>

theorem constant_energy_counterexample:
  "map_option fst (run_callbacks
       [(0, (0, 0, 0), replicate 2048 16384), (46, (0, 0, 0), replicate 2048 16384)]
       initial_state) = Some [True, True]"
  by (simp add: buffer_energy_replicate audio_callback_def audio_update_def Let_def
      BEAT_THRESHOLD_def initial_state_def)

subsection \<open>Spawning a particle\<close>




text \<open>
  Claim C8. When an onset is signalled while each of the 300 slots has \<open>lifetime > 0\<close>,
  the pool is left as it is: no field of any slot is written and the 300 particles stay
  active.
\<close>

theorem spawn_full_pool_noop:
  assumes "audio_callback now rnd samples s = Some (True, s')"
    and "\<forall>i<MAX_PARTICLES. 0 < lifetime (particles s i)"
  shows "particles s' = particles s \<and> (\<forall>i<MAX_PARTICLES. 0 < lifetime (particles s' i))"
proof -
  from audio_callback_SomeD [OF assms(1)] obtain energy where
    u: "audio_update now rnd energy s = (True, s')" by blast
  have "particles s' = spawn_loop [0..<MAX_PARTICLES] rnd (particles s)"
    using audio_update_fields [OF u] by simp
  also have "\<dots> = particles s" using assms(2) by (rule spawn_loop_upt_full)
  finally show ?thesis using assms(2) by simp
qed

text \<open>A pool whose 300 slots all have lifetime 30, the baseline 0 and a buffer of energy
  0.5: the onset is signalled and the pool is unchanged.\<close>

theorem spawn_full_pool_noop_witness:
  "\<exists>s'. audio_callback 1000 (0, 0, 0) (replicate 2048 16384)
          (initial_state\<lparr>particles := \<lambda>i. zero_particle\<lparr>lifetime := 30\<rparr>\<rparr>) = Some (True, s') \<and>
        particles s' = (\<lambda>i. zero_particle\<lparr>lifetime := 30\<rparr>)"
proof -
  define s where "s = initial_state\<lparr>particles := \<lambda>i. zero_particle\<lparr>lifetime := 30\<rparr>\<rparr>"
  define s' where "s' = snd (audio_update 1000 (0, 0, 0) (1 / 2) s)"
  have e: "buffer_energy (replicate 2048 16384) = Some (1 / 2)"
    by (simp add: buffer_energy_replicate)
  have f: "fst (audio_update 1000 (0, 0, 0) (1 / 2) s)"
    by (simp add: audio_update_def Let_def BEAT_THRESHOLD_def initial_state_def s_def)
  have h1: "audio_callback 1000 (0, 0, 0) (replicate 2048 16384) s = Some (True, s')"
    using e f by (simp add: audio_callback_def s'_def prod_eq_iff)
  have h2: "\<forall>i<MAX_PARTICLES. 0 < lifetime (particles s i)"
    by (simp add: s_def)
  have "particles s' = particles s"
    using spawn_full_pool_noop [OF h1 h2] by simp
  then show ?thesis using h1 by (simp add: s_def)
qed

subsection \<open>What one invocation changes\<close>

text \<open>
  Claim C10. One invocation (on a buffer with at least one sample) sets \<open>amplitude\<close> to
  the energy, \<open>beat_energy\<close> to the moving average and \<open>hue\<close> to \<open>fmod (hue + 0.3) 360\<close>,
  whether or not an onset is signalled. With an onset \<open>last_beat\<close> becomes the clock and
  the pool changes in its first free slot only, or not at all when no slot is free.
  Without an onset \<open>last_beat\<close> and the pool are unchanged. In every case at most one
  slot of the pool differs afterwards.
\<close>

theorem audio_callback_frame:
  assumes "samples \<noteq> []"
  shows "\<exists>energy onset s'.
     buffer_energy samples = Some energy \<and>
     audio_callback now rnd samples s = Some (onset, s') \<and>
     amplitude s' = energy \<and>
     beat_energy s' = 0.9 * beat_energy s + 0.1 * energy \<and>
     hue s' = fmod (hue s + 0.3) 360 \<and>
     (if onset
      then last_beat s' = now \<and>
        ((\<exists>i<MAX_PARTICLES. lifetime (particles s i) \<le> 0 \<and>
              (\<forall>j<i. 0 < lifetime (particles s j)) \<and>
              particles s' = (particles s)(i := new_particle rnd)) \<or>
         ((\<forall>i<MAX_PARTICLES. 0 < lifetime (particles s i)) \<and> particles s' = particles s))
      else last_beat s' = last_beat s \<and> particles s' = particles s) \<and>
     (\<exists>i<MAX_PARTICLES. \<forall>j. j \<noteq> i \<longrightarrow> particles s' j = particles s j)"
proof -
  from buffer_energy_Some [OF assms] obtain energy where
    e: "buffer_energy samples = Some energy" by blast
  obtain onset s' where u: "audio_update now rnd energy s = (onset, s')"
    by (cases "audio_update now rnd energy s") auto
  note f = audio_update_fields [OF u]
  have c: "audio_callback now rnd samples s = Some (onset, s')"
    using e u by (simp add: audio_callback_def)
  let ?free = "\<lambda>i. i < MAX_PARTICLES \<and> lifetime (particles s i) \<le> 0"
  have pool: "(\<exists>i<MAX_PARTICLES. lifetime (particles s i) \<le> 0 \<and>
              (\<forall>j<i. 0 < lifetime (particles s j)) \<and>
              spawn_loop [0..<MAX_PARTICLES] rnd (particles s) = (particles s)(i := new_particle rnd)) \<or>
         ((\<forall>i<MAX_PARTICLES. 0 < lifetime (particles s i)) \<and>
              spawn_loop [0..<MAX_PARTICLES] rnd (particles s) = particles s)"
  proof (cases "\<exists>i. ?free i")
    case True
    define i where "i = (LEAST i. ?free i)"
    have fi: "?free i" unfolding i_def using True by (rule LeastI_ex)
    have lo: "\<forall>j<i. 0 < lifetime (particles s j)"
    proof (intro allI impI)
      fix j assume "j < i"
      then have "\<not> ?free j" unfolding i_def by (rule not_less_Least)
      moreover have "j < MAX_PARTICLES" using \<open>j < i\<close> fi by simp
      ultimately show "0 < lifetime (particles s j)" by simp
    qed
    have "spawn_loop [0..<MAX_PARTICLES] rnd (particles s) = (particles s)(i := new_particle rnd)"
      using fi lo by (intro spawn_loop_upt_first) simp_all
    then show ?thesis using fi lo by blast
  next
    case False
    then have full: "\<forall>i<MAX_PARTICLES. 0 < lifetime (particles s i)" by auto
    then show ?thesis using spawn_loop_upt_full [of MAX_PARTICLES "particles s" rnd] by simp
  qed
  have one: "\<exists>i<MAX_PARTICLES. \<forall>j. j \<noteq> i \<longrightarrow> particles s' j = particles s j"
  proof -
    have "particles s' = particles s \<or>
          (\<exists>i<MAX_PARTICLES. particles s' = (particles s)(i := new_particle rnd))"
      using f pool by (cases onset) auto
    then show ?thesis
    proof
      assume "particles s' = particles s"
      then show ?thesis by (intro exI [of _ 0]) (simp add: MAX_PARTICLES_def)
    next
      assume "\<exists>i<MAX_PARTICLES. particles s' = (particles s)(i := new_particle rnd)"
      then obtain i where "i < MAX_PARTICLES" "particles s' = (particles s)(i := new_particle rnd)"
        by blast
      then show ?thesis by (intro exI [of _ i]) simp
    qed
  qed
  show ?thesis
    apply (rule exI [of _ energy], rule exI [of _ onset], rule exI [of _ s'])
    using e c f pool one by (cases onset) simp_all
qed

theorem audio_callback_frame_witness:
  "\<exists>energy onset s'.
     buffer_energy (replicate 2048 16384) = Some energy \<and>
     audio_callback 1000 (0, 0, 0) (replicate 2048 16384) initial_state = Some (onset, s') \<and>
     amplitude s' = energy \<and>
     beat_energy s' = 0.9 * beat_energy initial_state + 0.1 * energy \<and>
     hue s' = fmod (hue initial_state + 0.3) 360 \<and>
     (if onset
      then last_beat s' = 1000 \<and>
        ((\<exists>i<MAX_PARTICLES. lifetime (particles initial_state i) \<le> 0 \<and>
              (\<forall>j<i. 0 < lifetime (particles initial_state j)) \<and>
              particles s' = (particles initial_state)(i := new_particle (0, 0, 0))) \<or>
         ((\<forall>i<MAX_PARTICLES. 0 < lifetime (particles initial_state i)) \<and>
              particles s' = particles initial_state))
      else last_beat s' = last_beat initial_state \<and> particles s' = particles initial_state) \<and>
     (\<exists>i<MAX_PARTICLES. \<forall>j. j \<noteq> i \<longrightarrow> particles s' j = particles initial_state j)"
proof -
  have h: "replicate 2048 (16384 :: Sint16) \<noteq> []" by simp
  show ?thesis by (rule audio_callback_frame [OF h])
qed

section \<open>Properties of the colour conversion\<close>

lemma fmod_range:
  assumes "0 \<le> a" and "0 < b"
  shows "0 \<le> fmod a b" and "fmod a b < b"
proof -
  have q: "0 \<le> a / b" using assms by simp
  have eq: "fmod a b = a - b * of_int \<lfloor>a / b\<rfloor>"
    using q by (simp add: fmod_def c_trunc_def)
  have ba: "b * (a / b) = a" using assms(2) by simp
  have "of_int \<lfloor>a / b\<rfloor> \<le> a / b" by (rule of_int_floor_le)
  then have "b * of_int \<lfloor>a / b\<rfloor> \<le> b * (a / b)"
    using assms(2) by (intro mult_left_mono) simp_all
  then show "0 \<le> fmod a b" unfolding eq ba by simp
  have "a / b < of_int \<lfloor>a / b\<rfloor> + 1" by linarith
  then have "b * (a / b) < b * (of_int \<lfloor>a / b\<rfloor> + 1)"
    using assms(2) by (intro mult_strict_left_mono) simp_all
  then show "fmod a b < b" unfolding eq ba by (simp add: algebra_simps)
qed

lemma float_to_Uint8_unit:
  assumes "0 \<le> v" and "v \<le> 1"
  shows "float_to_Uint8 (v * 255) = Some (word_of_int \<lfloor>v * 255\<rfloor>)"
proof -
  have "0 \<le> v * 255" using assms(1) by simp
  moreover have "v * 255 < 256" using assms(2) by simp
  ultimately show ?thesis by (simp add: float_to_Uint8_def c_trunc_def)
qed

lemma HSL_channels_unit:
  assumes "0 \<le> h" and "0 \<le> s" and "s \<le> 1" and "0 \<le> l" and "l \<le> 1"
  defines "c \<equiv> (1 - \<bar>2 * l - 1\<bar>) * s"
  defines "x \<equiv> c * (1 - \<bar>fmod (fmod h 360 / 60) 2 - 1\<bar>)"
  defines "m \<equiv> l - c / 2"
  shows "0 \<le> m" and "m \<le> 1" and "0 \<le> c + m" and "c + m \<le> 1" and "0 \<le> x + m" and "x + m \<le> 1"
proof -
  have w: "0 \<le> 1 - \<bar>2 * l - 1\<bar>" using assms(4,5) by simp
  have c0: "0 \<le> c" unfolding c_def using w assms(2) by simp
  have "c \<le> (1 - \<bar>2 * l - 1\<bar>) * 1"
    unfolding c_def using w assms(3) by (intro mult_left_mono) simp_all
  then have c1: "c \<le> 1 - \<bar>2 * l - 1\<bar>" by simp
  have h0: "0 \<le> fmod h 360 / 60" using fmod_range(1) [OF assms(1), of 360] by simp
  have t: "0 \<le> fmod (fmod h 360 / 60) 2" "fmod (fmod h 360 / 60) 2 < 2"
    using fmod_range [OF h0, of 2] by simp_all
  have u0: "0 \<le> 1 - \<bar>fmod (fmod h 360 / 60) 2 - 1\<bar>" using t by simp
  have u1: "1 - \<bar>fmod (fmod h 360 / 60) 2 - 1\<bar> \<le> 1" by simp
  have x0: "0 \<le> x" unfolding x_def using c0 u0 by simp
  have "x \<le> c * 1" unfolding x_def using c0 u1 by (intro mult_left_mono)
  then have x1: "x \<le> c" by simp
  show "0 \<le> m" unfolding m_def using c1 by simp
  show "m \<le> 1" unfolding m_def using c0 assms(5) by simp
  show "0 \<le> c + m" unfolding m_def using c0 assms(4) by simp
  show "c + m \<le> 1" unfolding m_def using c1 by simp
  show "0 \<le> x + m" unfolding m_def using x0 x1 c1 by simp
  show "x + m \<le> 1" unfolding m_def using x1 c1 by simp
qed

lemma store_rgb_unit:
  assumes "0 \<le> r" "r \<le> 1" "0 \<le> g" "g \<le> 1" "0 \<le> b" "b \<le> 1"
  shows "\<exists>r8 g8 b8. store_rgb r g b = Some (r8, g8, b8)"
  by (simp add: store_rgb_def float_to_Uint8_unit assms)

lemma HSLtoRGB_defined:
  assumes "0 \<le> h" and "0 \<le> s" and "s \<le> 1" and "0 \<le> l" and "l \<le> 1"
  shows "\<exists>rgb. HSLtoRGB h s l = Some rgb"
proof -
  define c where "c = (1 - \<bar>2 * l - 1\<bar>) * s"
  define x where "x = c * (1 - \<bar>fmod (fmod h 360 / 60) 2 - 1\<bar>)"
  define m where "m = l - c / 2"
  note u = HSL_channels_unit [OF assms, folded c_def, folded x_def, folded m_def]
  have eq: "HSLtoRGB h s l =
     (if fmod h 360 < 60 then store_rgb (c + m) (x + m) m
      else if fmod h 360 < 120 then store_rgb (x + m) (c + m) m
      else if fmod h 360 < 180 then store_rgb m (c + m) (x + m)
      else if fmod h 360 < 240 then store_rgb m (x + m) (c + m)
      else store_rgb (x + m) m (c + m))"
    by (simp only: HSLtoRGB_def Let_def c_def x_def m_def)
  show ?thesis
    unfolding eq using u by (simp add: store_rgb_unit)
qed

lemma HSLtoRGB_ring_defined: "0 \<le> h \<Longrightarrow> \<exists>rgb. HSLtoRGB h 0.8 0.6 = Some rgb"
  by (rule HSLtoRGB_defined) simp_all

lemma HSLtoRGB_particles_defined: "0 \<le> h \<Longrightarrow> \<exists>rgb. HSLtoRGB h 0.8 0.7 = Some rgb"
  by (rule HSLtoRGB_defined) simp_all

lemma fmod_eq_real_mod: "0 \<le> a \<Longrightarrow> 0 < b \<Longrightarrow> fmod a b = real_mod a b"
  by (simp add: fmod_def real_mod_def c_trunc_def)

text \<open>Below 300 degrees the five branches are the first five sectors.\<close>

lemma HSLtoRGB_six_sector_agree:
  assumes "0 \<le> h" and "fmod h 360 < 300"
  shows "HSLtoRGB h s l = six_sector_HSL h s l"
proof -
  have a: "real_mod h 360 = fmod h 360"
    using assms(1) by (simp add: fmod_eq_real_mod)
  have "0 \<le> fmod h 360 / 60" using fmod_range(1) [OF assms(1), of 360] by simp
  then have b: "real_mod (fmod h 360 / 60) 2 = fmod (fmod h 360 / 60) 2"
    by (simp add: fmod_eq_real_mod)
  show ?thesis
    unfolding HSLtoRGB_def six_sector_HSL_def Let_def a b using assms(2) by simp
qed

lemma fmod_add_period:
  assumes "0 \<le> a" and "0 < b"
  shows "fmod (a + b * real k) b = fmod a b"
proof -
  have "0 \<le> a / b" using assms by simp
  moreover have "0 \<le> (a + b * real k) / b" using assms by simp
  moreover have "(a + b * real k) / b = a / b + of_int (int k)"
    using assms(2) by (simp add: field_simps)
  ultimately show ?thesis
    by (simp add: fmod_def c_trunc_def algebra_simps)
qed

lemma HSLtoRGB_period: "0 \<le> h \<Longrightarrow> HSLtoRGB (h + 360 * real k) s l = HSLtoRGB h s l"
  using fmod_add_period [of h 360 k] by (simp add: HSLtoRGB_def Let_def)

lemma HSLtoRGB_gray:
  assumes "0 \<le> l" and "l \<le> 1"
  shows "HSLtoRGB h 0 l = Some (word_of_int \<lfloor>l * 255\<rfloor>, word_of_int \<lfloor>l * 255\<rfloor>, word_of_int \<lfloor>l * 255\<rfloor>)"
  using assms by (simp add: HSLtoRGB_def Let_def store_rgb_def float_to_Uint8_unit)

lemma HSLtoRGB_primaries:
  "HSLtoRGB 0 1 (1 / 2) = Some (255, 0, 0)"
  "HSLtoRGB 120 1 (1 / 2) = Some (0, 255, 0)"
  "HSLtoRGB 240 1 (1 / 2) = Some (0, 0, 255)"
  by (simp_all add: HSLtoRGB_def store_rgb_def fmod_def c_trunc_def float_to_Uint8_def Let_def)

text \<open>A negative hue keeps its sign through \<open>fmod\<close>; the conversion of a negative channel
  is undefined.\<close>

lemma HSLtoRGB_negative_hue:
  "HSLtoRGB (- 330) 1 (1 / 2) = None"
  "HSLtoRGB 30 1 (1 / 2) = Some (255, 127, 0)"
  by (simp_all add: HSLtoRGB_def store_rgb_def fmod_def c_trunc_def float_to_Uint8_def Let_def)

text \<open>
  Claim C5, the sixth sector. For a hue of 330 degrees, saturation 1 and lightness 0.5
  the six-sector formula gives \<open>(c, 0, x) = (1, 0, 0.5)\<close>, the channels \<open>(255, 0, 127)\<close>.
  \<open>HSLtoRGB\<close> has five branches: every hue from 240 degrees on takes the assignment
  \<open>(x, 0, c)\<close> of the fifth sector and the result is \<open>(127, 0, 255)\<close>. The same holds for
  the colour of the particles, which \<open>draw_particles\<close> asks for with saturation 0.8 and
  lightness 0.7: red and blue are exchanged.
\<close>

theorem HSLtoRGB_sixth_sector:
  "HSLtoRGB 330 1 (1 / 2) = Some (127, 0, 255) \<and>
   six_sector_HSL 330 1 (1 / 2) = Some (255, 0, 127) \<and>
   HSLtoRGB 330 0.8 0.7 = Some (178, 117, 239) \<and>
   six_sector_HSL 330 0.8 0.7 = Some (239, 117, 178)"
  by (simp add: HSLtoRGB_def six_sector_HSL_def store_rgb_def fmod_def real_mod_def
      c_trunc_def float_to_Uint8_def Let_def)

section \<open>Properties of the particle advance\<close>

lemma advance_particle_fields:
  "p_x (advance_particle p) = p_x p + p_dx p"
  "p_y (advance_particle p) = p_y p + p_dy p"
  "p_dx (advance_particle p) = p_dx p"
  "p_dy (advance_particle p) = p_dy p"
  "lifetime (advance_particle p) = lifetime p - 1"
  "alpha (advance_particle p) = alpha p - 8"
  by (simp_all add: advance_particle_def Let_def)

lemma float_to_int_SomeD: "float_to_int v = Some x \<Longrightarrow> x = c_trunc v"
  by (auto simp: float_to_int_def split: if_splits)

lemma draw_particles_loop_slots:
  assumes "draw_particles_loop idxs rgb (ren, ps) = Some (ren', ps')" and "distinct idxs"
  shows "ps' i = (if i \<in> set idxs \<and> 0 < lifetime (ps i) then advance_particle (ps i) else ps i)"
  using assms
proof (induction idxs arbitrary: ren ps)
  case Nil
  then show ?case by simp
next
  case (Cons j idxs)
  have d: "distinct idxs" "j \<notin> set idxs" using Cons.prems(2) by simp_all
  show ?case
  proof (cases "0 < lifetime (ps j)")
    case False
    then have "draw_particles_loop idxs rgb (ren, ps) = Some (ren', ps')"
      using Cons.prems(1) by simp
    from Cons.IH [OF this d(1)] show ?thesis using False by auto
  next
    case True
    then obtain ren1 where
      "draw_particles_loop idxs rgb (ren1, ps(j := advance_particle (ps j))) = Some (ren', ps')"
      using Cons.prems(1) by (auto simp: Let_def split: option.splits prod.splits)
    from Cons.IH [OF this d(1)] show ?thesis using True d(2) by auto
  qed
qed

lemma draw_particles_state:
  assumes "draw_particles s ren = Some (ren', s')"
  shows "amplitude s' = amplitude s" and "beat_energy s' = beat_energy s"
    and "last_beat s' = last_beat s" and "hue s' = hue s"
    and "particles s' i =
      (if i < MAX_PARTICLES \<and> 0 < lifetime (particles s i)
       then advance_particle (particles s i) else particles s i)"
proof -
  from assms obtain rgb ps' where
    l: "draw_particles_loop [0..<MAX_PARTICLES] rgb (ren, particles s) = Some (ren', ps')"
    and s': "s' = s\<lparr>particles := ps'\<rparr>"
    by (auto simp: draw_particles_def split: option.splits)
  show "amplitude s' = amplitude s" "beat_energy s' = beat_energy s"
    "last_beat s' = last_beat s" "hue s' = hue s"
    using s' by simp_all
  show "particles s' i =
      (if i < MAX_PARTICLES \<and> 0 < lifetime (particles s i)
       then advance_particle (particles s i) else particles s i)"
    using draw_particles_loop_slots [OF l, of i] s' by simp
qed

text \<open>The commands that the particle loop issues: a colour and a point for each active
  slot, in the order of the slots.\<close>

lemma draw_particles_loop_output:
  assumes "draw_particles_loop idxs (r, g, b) (ren, ps) = Some (ren', ps')" and "distinct idxs"
  shows "ren' = ren @ concat (map (\<lambda>i.
            [SetRenderDrawColor r g b (alpha (ps i) - 8),
             RenderDrawPoint (c_trunc (p_x (ps i) + p_dx (ps i)))
                             (c_trunc (p_y (ps i) + p_dy (ps i)))])
          (filter (\<lambda>i. 0 < lifetime (ps i)) idxs))"
  using assms
proof (induction idxs arbitrary: ren ps)
  case Nil
  then show ?case by simp
next
  case (Cons j idxs)
  have d: "distinct idxs" "j \<notin> set idxs" using Cons.prems(2) by simp_all
  show ?case
  proof (cases "0 < lifetime (ps j)")
    case False
    then have "draw_particles_loop idxs (r, g, b) (ren, ps) = Some (ren', ps')"
      using Cons.prems(1) by simp
    from Cons.IH [OF this d(1)] show ?thesis using False by simp
  next
    case True
    let ?p = "advance_particle (ps j)"
    let ?qs = "ps(j := ?p)"
    from True Cons.prems(1) obtain x y where
      x: "float_to_int (p_x ?p) = Some x" and y: "float_to_int (p_y ?p) = Some y"
      and rec: "draw_particles_loop idxs (r, g, b)
                  (ren @ [SetRenderDrawColor r g b (alpha ?p), RenderDrawPoint x y], ?qs)
                = Some (ren', ps')"
      by (auto simp: Let_def split: option.splits)
    have xy: "x = c_trunc (p_x (ps j) + p_dx (ps j))" "y = c_trunc (p_y (ps j) + p_dy (ps j))"
      using float_to_int_SomeD [OF x] float_to_int_SomeD [OF y]
      by (simp_all add: advance_particle_fields)
    have same: "\<And>i. i \<in> set idxs \<Longrightarrow> ?qs i = ps i" using d(2) by auto
    have f: "filter (\<lambda>i. 0 < lifetime (?qs i)) idxs = filter (\<lambda>i. 0 < lifetime (ps i)) idxs"
      using d(2) by (intro filter_cong) auto
    have m: "map (\<lambda>i.
            [SetRenderDrawColor r g b (alpha (?qs i) - 8),
             RenderDrawPoint (c_trunc (p_x (?qs i) + p_dx (?qs i)))
                             (c_trunc (p_y (?qs i) + p_dy (?qs i)))])
          (filter (\<lambda>i. 0 < lifetime (ps i)) idxs)
       = map (\<lambda>i.
            [SetRenderDrawColor r g b (alpha (ps i) - 8),
             RenderDrawPoint (c_trunc (p_x (ps i) + p_dx (ps i)))
                             (c_trunc (p_y (ps i) + p_dy (ps i)))])
          (filter (\<lambda>i. 0 < lifetime (ps i)) idxs)"
      using d(2) by (intro map_cong) auto
    from Cons.IH [OF rec d(1)] show ?thesis
      unfolding f m using True xy by (simp add: advance_particle_fields)
  qed
qed

lemma draw_particles_output:
  assumes "draw_particles s ren = Some (ren', s')"
  shows "\<exists>r g b. HSLtoRGB (hue s) 0.8 0.7 = Some (r, g, b) \<and>
     ren' = ren @ concat (map (\<lambda>i.
            [SetRenderDrawColor r g b (alpha (particles s i) - 8),
             RenderDrawPoint (c_trunc (p_x (particles s i) + p_dx (particles s i)))
                             (c_trunc (p_y (particles s i) + p_dy (particles s i)))])
          (filter (\<lambda>i. 0 < lifetime (particles s i)) [0..<MAX_PARTICLES]))"
proof -
  from assms obtain r g b ps' where
    c: "HSLtoRGB (hue s) 0.8 0.7 = Some (r, g, b)"
    and l: "draw_particles_loop [0..<MAX_PARTICLES] (r, g, b) (ren, particles s) = Some (ren', ps')"
    by (auto simp: draw_particles_def split: option.splits)
  from draw_particles_loop_output [OF l] c show ?thesis by simp
qed

lemma after_steps:
  assumes "draw_particles_steps k s ren = Some (ren', s')"
    and "i < MAX_PARTICLES" and "int k \<le> lifetime (particles s i)"
  shows "alpha (particles s' i) = alpha (particles s i) - 8 * of_nat k \<and>
         lifetime (particles s' i) = lifetime (particles s i) - int k"
  using assms(1,3)
proof (induction k arbitrary: s ren)
  case 0
  then show ?case by simp
next
  case (Suc k)
  from Suc.prems(1) obtain ren1 s1 where
    d: "draw_particles s ren = Some (ren1, s1)"
    and r: "draw_particles_steps k s1 ren1 = Some (ren', s')"
    by (auto split: option.splits)
  have act: "0 < lifetime (particles s i)" using Suc.prems(2) by simp
  have p1: "particles s1 i = advance_particle (particles s i)"
    using draw_particles_state(5) [OF d, of i] act assms(2) by simp
  have "int k \<le> lifetime (particles s1 i)"
    using Suc.prems(2) by (simp add: p1 advance_particle_fields)
  from Suc.IH [OF r this] show ?case
    by (simp add: p1 advance_particle_fields algebra_simps)
qed

lemma unat_fade_from_opaque: "unat (255 - 8 * of_nat k :: Uint8) = 255 - (8 * k) mod 256"
proof -
  have "(8 * of_nat k :: Uint8) \<le> 255"
    using unsigned_less [of "8 * of_nat k :: Uint8", where ?'a = nat]
    by (simp add: word_le_nat_alt)
  then have "unat (255 - 8 * of_nat k :: Uint8) = unat (255 :: Uint8) - unat (8 * of_nat k :: Uint8)"
    by (rule unat_sub)
  also have "unat (8 * of_nat k :: Uint8) = (8 * k) mod 256"
    by (simp add: unat_word_ariths unat_of_nat mod_mult_right_eq)
  finally show ?thesis by simp
qed

lemma float_to_int_defined: "\<bar>v\<bar> \<le> 2147483647 \<Longrightarrow> float_to_int v = Some (c_trunc v)"
  by (simp add: float_to_int_def abs_le_iff)

lemma draw_particles_loop_defined:
  assumes "\<forall>i \<in> set idxs. 0 < lifetime (ps i) \<longrightarrow>
             \<bar>p_x (ps i) + p_dx (ps i)\<bar> \<le> 2147483647 \<and> \<bar>p_y (ps i) + p_dy (ps i)\<bar> \<le> 2147483647"
    and "distinct idxs"
  shows "\<exists>out. draw_particles_loop idxs rgb (ren, ps) = Some out"
  using assms
proof (induction idxs arbitrary: ren ps)
  case Nil
  show ?case by simp
next
  case (Cons j idxs)
  have d: "distinct idxs" "j \<notin> set idxs" using Cons.prems(2) by simp_all
  obtain r g b where rgb: "rgb = (r, g, b)" by (cases rgb) auto
  show ?case
  proof (cases "0 < lifetime (ps j)")
    case False
    have "\<exists>out. draw_particles_loop idxs rgb (ren, ps) = Some out"
      using Cons.prems(1) d(1) by (intro Cons.IH) simp_all
    then show ?thesis using False by simp
  next
    case True
    let ?p = "advance_particle (ps j)"
    have x: "float_to_int (p_x ?p) = Some (c_trunc (p_x ?p))"
      and y: "float_to_int (p_y ?p) = Some (c_trunc (p_y ?p))"
      using Cons.prems(1) True by (simp_all add: float_to_int_defined advance_particle_fields)
    have "\<forall>i \<in> set idxs. 0 < lifetime ((ps(j := ?p)) i) \<longrightarrow>
             \<bar>p_x ((ps(j := ?p)) i) + p_dx ((ps(j := ?p)) i)\<bar> \<le> 2147483647 \<and>
             \<bar>p_y ((ps(j := ?p)) i) + p_dy ((ps(j := ?p)) i)\<bar> \<le> 2147483647"
      using Cons.prems(1) d(2) by auto
    from Cons.IH [OF this d(1)]
    have "\<exists>out. draw_particles_loop idxs rgb
            (ren @ [SetRenderDrawColor r g b (alpha ?p),
                    RenderDrawPoint (c_trunc (p_x ?p)) (c_trunc (p_y ?p))], ps(j := ?p)) = Some out"
      by blast
    then show ?thesis using True x y rgb by (simp add: Let_def)
  qed
qed

lemma draw_particles_defined:
  assumes "0 \<le> hue s"
    and "\<forall>i<MAX_PARTICLES. 0 < lifetime (particles s i) \<longrightarrow>
           \<bar>p_x (particles s i) + p_dx (particles s i)\<bar> \<le> 2147483647 \<and>
           \<bar>p_y (particles s i) + p_dy (particles s i)\<bar> \<le> 2147483647"
  shows "\<exists>out. draw_particles s ren = Some out"
proof -
  from HSLtoRGB_particles_defined [OF assms(1)] obtain rgb where
    c: "HSLtoRGB (hue s) 0.8 0.7 = Some rgb" by blast
  have "\<exists>out. draw_particles_loop [0..<MAX_PARTICLES] rgb (ren, particles s) = Some out"
    using assms(2) by (intro draw_particles_loop_defined) simp_all
  then show ?thesis using c by (auto simp: draw_particles_def)
qed

lemma draw_particles_steps_defined:
  assumes "0 \<le> hue s"
    and "\<forall>i<MAX_PARTICLES.
           \<bar>p_x (particles s i)\<bar> + real k * \<bar>p_dx (particles s i)\<bar> \<le> 2147483647 \<and>
           \<bar>p_y (particles s i)\<bar> + real k * \<bar>p_dy (particles s i)\<bar> \<le> 2147483647"
  shows "\<exists>out. draw_particles_steps k s ren = Some out"
  using assms
proof (induction k arbitrary: s ren)
  case 0
  show ?case by simp
next
  case (Suc k)
  have step: "\<bar>a + d\<bar> \<le> 2147483647 \<and> \<bar>a + d\<bar> + real k * \<bar>d\<bar> \<le> 2147483647"
    if "\<bar>a\<bar> + real (Suc k) * \<bar>d\<bar> \<le> 2147483647" for a d :: real
  proof -
    have "\<bar>a + d\<bar> + real k * \<bar>d\<bar> \<le> \<bar>a\<bar> + real (Suc k) * \<bar>d\<bar>"
      by (simp add: algebra_simps)
    moreover have "0 \<le> real k * \<bar>d\<bar>" by simp
    ultimately show ?thesis using that by linarith
  qed
  have keep: "\<bar>a\<bar> + real k * \<bar>d\<bar> \<le> 2147483647"
    if "\<bar>a\<bar> + real (Suc k) * \<bar>d\<bar> \<le> 2147483647" for a d :: real
  proof -
    have "\<bar>a\<bar> + real k * \<bar>d\<bar> \<le> \<bar>a\<bar> + real (Suc k) * \<bar>d\<bar>"
      by (simp add: algebra_simps)
    then show ?thesis using that by linarith
  qed
  have "\<exists>out. draw_particles s ren = Some out"
    using Suc.prems(1) Suc.prems(2) step by (intro draw_particles_defined) blast+
  then obtain ren1 s1 where d: "draw_particles s ren = Some (ren1, s1)" by auto
  note st = draw_particles_state [OF d]
  have "\<forall>i<MAX_PARTICLES.
           \<bar>p_x (particles s1 i)\<bar> + real k * \<bar>p_dx (particles s1 i)\<bar> \<le> 2147483647 \<and>
           \<bar>p_y (particles s1 i)\<bar> + real k * \<bar>p_dy (particles s1 i)\<bar> \<le> 2147483647"
    using Suc.prems(2) step keep by (simp add: st(5) advance_particle_fields)
  moreover have "0 \<le> hue s1" using Suc.prems(1) st(4) by simp
  ultimately have "\<exists>out. draw_particles_steps k s1 ren1 = Some out"
    by (intro Suc.IH)
  then show ?case using d by simp
qed

text \<open>
  Claim C4, as amended. In the particle advance of \<open>draw_particles\<close> the alpha of an
  active particle is decremented by 8 modulo 256: it is a \<^verbatim>\<open>Uint8\<close>, the subtraction wraps
  around and nothing clamps it. After \<open>k\<close> advance steps during which the particle stays
  active its alpha is the old one minus \<open>8 * k\<close> modulo 256. A particle that starts at
  alpha 255 is at \<open>255 - (8 * k) mod 256\<close>: 7 after 31 steps, 255 again after 32, never 0.
  (The steps are defined in every state of a run, \<open>reachable_steps_defined\<close> below.)
\<close>

theorem alpha_decrement_wraps:
  assumes "draw_particles_steps k s ren = Some (ren', s')"
    and "i < MAX_PARTICLES" and "int k \<le> lifetime (particles s i)"
  shows "alpha (particles s' i) = alpha (particles s i) - 8 * of_nat k \<and>
         (alpha (particles s i) = 255 \<longrightarrow>
            unat (alpha (particles s' i)) = 255 - (8 * k) mod 256 \<and>
            alpha (particles s' i) \<noteq> 0)"
proof -
  have a: "alpha (particles s' i) = alpha (particles s i) - 8 * of_nat k"
    using after_steps [OF assms] by simp
  have "unat (alpha (particles s' i)) = 255 - (8 * k) mod 256 \<and> alpha (particles s' i) \<noteq> 0"
    if "alpha (particles s i) = 255"
  proof -
    have u: "unat (alpha (particles s' i)) = 255 - (8 * k) mod 256"
      using a that by (simp add: unat_fade_from_opaque)
    have "(8 * k) mod 256 < 256" by simp
    moreover have "(8 * k) mod 256 \<noteq> 255"
    proof
      assume "(8 * k) mod 256 = 255"
      then have "((8 * k) mod 256) mod 8 = 255 mod 8" by simp
      then show False by (simp add: mod_mod_cancel)
    qed
    ultimately have "0 < unat (alpha (particles s' i))" using u by simp
    then show ?thesis using u by (auto simp: unat_gt_0)
  qed
  with a show ?thesis by blast
qed

text \<open>A particle as the spawn leaves it (alpha 255, lifetime 40), advanced for 32 frames.\<close>

theorem alpha_decrement_wraps_witness:
  "\<exists>ren' s'.
     draw_particles_steps 32
       (initial_state\<lparr>particles := (particles initial_state)
          (0 := \<lparr>p_x = 400, p_y = 400, p_dx = 1, p_dy = 0, lifetime = 40, alpha = 255\<rparr>)\<rparr>) []
       = Some (ren', s') \<and>
     alpha (particles s' 0) = 255 \<and> unat (alpha (particles s' 0)) = 255"
proof -
  define s where "s = initial_state\<lparr>particles := (particles initial_state)
          (0 := \<lparr>p_x = 400, p_y = 400, p_dx = 1, p_dy = 0, lifetime = 40, alpha = 255\<rparr>)\<rparr>"
  have "\<exists>out. draw_particles_steps 32 s [] = Some out"
    by (rule draw_particles_steps_defined)
      (simp_all add: s_def initial_state_def zero_particle_def)
  then obtain ren' s' where h1: "draw_particles_steps 32 s [] = Some (ren', s')" by auto
  have h2: "0 < MAX_PARTICLES" by (simp add: MAX_PARTICLES_def)
  have h3: "int 32 \<le> lifetime (particles s 0)" by (simp add: s_def)
  have a: "alpha (particles s 0) = 255" by (simp add: s_def)
  note w = alpha_decrement_wraps [OF h1 h2 h3]
  have "alpha (particles s' 0) = 255"
    using w [THEN conjunct1] a by simp
  moreover have "unat (alpha (particles s' 0)) = 255"
    using w [THEN conjunct2] a by simp
  ultimately show ?thesis using h1 unfolding s_def by blast
qed

text \<open>
  Claim C4 as stated has the decrement saturate and the alpha reach 0 within 32 steps. A
  run from the initial state: a buffer of energy 0.5 spawns a particle in slot 0 with
  alpha 255 and lifetime 40 (\<^verbatim>\<open>rand()\<close> returning 0, 0, 20). After 31 advances its alpha is
  7, and the 32nd advance takes it to 255, not to 0.
\<close>

theorem alpha_saturation_counterexample:
  "audio_callback 0 (0, 0, 20) (replicate 2048 16384) initial_state =
     Some (True, initial_state\<lparr>amplitude := 1 / 2, beat_energy := 1 / 20,
        particles := (particles initial_state)
          (0 := \<lparr>p_x = 400, p_y = 400, p_dx = 1, p_dy = 0, lifetime = 40, alpha = 255\<rparr>),
        hue := 3 / 10\<rparr>) \<and>
   draw_particles_steps 31
     (initial_state\<lparr>amplitude := 1 / 2, beat_energy := 1 / 20,
        particles := (particles initial_state)
          (0 := \<lparr>p_x = 400, p_y = 400, p_dx = 1, p_dy = 0, lifetime = 40, alpha = 255\<rparr>),
        hue := 3 / 10\<rparr>) [] \<noteq> None \<and>
   alpha (particles (snd (the (draw_particles_steps 31
     (initial_state\<lparr>amplitude := 1 / 2, beat_energy := 1 / 20,
        particles := (particles initial_state)
          (0 := \<lparr>p_x = 400, p_y = 400, p_dx = 1, p_dy = 0, lifetime = 40, alpha = 255\<rparr>),
        hue := 3 / 10\<rparr>) []))) 0) = 7 \<and>
   draw_particles_steps 32
     (initial_state\<lparr>amplitude := 1 / 2, beat_energy := 1 / 20,
        particles := (particles initial_state)
          (0 := \<lparr>p_x = 400, p_y = 400, p_dx = 1, p_dy = 0, lifetime = 40, alpha = 255\<rparr>),
        hue := 3 / 10\<rparr>) [] \<noteq> None \<and>
   alpha (particles (snd (the (draw_particles_steps 32
     (initial_state\<lparr>amplitude := 1 / 2, beat_energy := 1 / 20,
        particles := (particles initial_state)
          (0 := \<lparr>p_x = 400, p_y = 400, p_dx = 1, p_dy = 0, lifetime = 40, alpha = 255\<rparr>),
        hue := 3 / 10\<rparr>) []))) 0) = 255"
proof -
  define b where "b = initial_state\<lparr>amplitude := 1 / 2, beat_energy := 1 / 20,
        particles := (particles initial_state)
          (0 := \<lparr>p_x = 400, p_y = 400, p_dx = 1, p_dy = 0, lifetime = 40, alpha = 255\<rparr>),
        hue := 3 / 10\<rparr>"
  have spawn: "audio_callback 0 (0, 0, 20) (replicate 2048 16384) initial_state = Some (True, b)"
    unfolding b_def
    by (simp add: audio_callback_def buffer_energy_replicate audio_update_def Let_def
      BEAT_THRESHOLD_def initial_state_def MAX_PARTICLES_def upt_rec [of 0 "numeral n" for n]
      zero_particle_def new_particle_def rand_range_def SCREEN_SIZE_def fmod_def c_trunc_def)
  have "\<exists>out. draw_particles_steps 31 b [] = Some out"
    by (rule draw_particles_steps_defined)
      (simp_all add: b_def initial_state_def zero_particle_def)
  then obtain ren1 b1 where b1: "draw_particles_steps 31 b [] = Some (ren1, b1)" by auto
  have "\<exists>out. draw_particles_steps 32 b [] = Some out"
    by (rule draw_particles_steps_defined)
      (simp_all add: b_def initial_state_def zero_particle_def)
  then obtain ren2 b2 where b2: "draw_particles_steps 32 b [] = Some (ren2, b2)" by auto
  have "alpha (particles b1 0) = alpha (particles b 0) - 8 * of_nat 31"
    using after_steps [OF b1, of 0] by (simp add: b_def MAX_PARTICLES_def)
  then have a1: "alpha (particles b1 0) = 7" by (simp add: b_def)
  have "alpha (particles b2 0) = alpha (particles b 0) - 8 * of_nat 32"
    using after_steps [OF b2, of 0] by (simp add: b_def MAX_PARTICLES_def)
  then have a2: "alpha (particles b2 0) = 255" by (simp add: b_def)
  show ?thesis
    using spawn b1 a1 b2 a2 unfolding b_def by simp
qed

section \<open>Properties of the ring\<close>

lemma ring_point_defined:
  assumes "\<bar>radius\<bar> \<le> 2147483247" and "\<bar>t\<bar> \<le> 1"
  shows "float_to_int (real_of_int (SCREEN_SIZE div 2) + t * radius)
           = Some (c_trunc (400 + t * radius))"
proof -
  have "\<bar>t * radius\<bar> \<le> 1 * \<bar>radius\<bar>"
    unfolding abs_mult using assms(2) by (intro mult_right_mono) simp_all
  then have "\<bar>400 + t * radius\<bar> \<le> 2147483647" using assms(1) by linarith
  then show ?thesis by (simp add: SCREEN_SIZE_def float_to_int_defined)
qed

lemma draw_circle_loop_from:
  assumes "\<bar>radius\<bar> \<le> 2147483247" and "j \<le> 180"
  shows "draw_circle_loop (2 * j) (r, g, b) radius ren =
     Some (ren @ concat (map (\<lambda>k.
        [SetRenderDrawColor r g b 255,
         RenderDrawPoint (c_trunc (400 + cos (real (2 * k) * pi / 180) * radius))
                         (c_trunc (400 + sin (real (2 * k) * pi / 180) * radius))]) [j..<180]))"
  using assms(2)
proof (induction "180 - j" arbitrary: j ren)
  case 0
  then have "j = 180" by simp
  then show ?case by (simp add: draw_circle_loop.simps)
next
  case (Suc n)
  then have j: "j < 180" "n = 180 - Suc j" "Suc j \<le> 180" by simp_all
  have x: "float_to_int (real_of_int (SCREEN_SIZE div 2) + cos (real (2 * j) * pi / 180) * radius)
             = Some (c_trunc (400 + cos (real (2 * j) * pi / 180) * radius))"
    by (rule ring_point_defined [OF assms(1)]) simp
  have y: "float_to_int (real_of_int (SCREEN_SIZE div 2) + sin (real (2 * j) * pi / 180) * radius)
             = Some (c_trunc (400 + sin (real (2 * j) * pi / 180) * radius))"
    by (rule ring_point_defined [OF assms(1)]) simp
  have u: "[j..<180] = j # [Suc j..<180]" using j(1) by (simp add: upt_conv_Cons)
  have "draw_circle_loop (2 * j) (r, g, b) radius ren =
        draw_circle_loop (2 * Suc j) (r, g, b) radius
          (ren @ [SetRenderDrawColor r g b 255,
                  RenderDrawPoint (c_trunc (400 + cos (real (2 * j) * pi / 180) * radius))
                                  (c_trunc (400 + sin (real (2 * j) * pi / 180) * radius))])"
    using j(1) x y by (subst draw_circle_loop.simps) (simp add: Let_def)
  also note Suc.hyps(1) [OF j(2) j(3)]
  finally show ?case unfolding u by simp
qed

lemma ring_radius_eq:
  "ring_radius now s = 100 + amplitude s * 150 - real (unat (now - last_beat s)) / 1000 * 50"
  by (simp add: ring_radius_def BASE_RADIUS_def Let_def)

lemma ring_radius_bound:
  assumes "\<bar>amplitude s\<bar> \<le> 1"
  shows "\<bar>ring_radius now s\<bar> \<le> 2147483247"
proof -
  define d where "d = real (unat (now - last_beat s))"
  have "unat (now - last_beat s) < 2 ^ 32"
    using unsigned_less [of "now - last_beat s", where ?'a = nat] by simp
  then have "real (unat (now - last_beat s)) < real (2 ^ 32)"
    by (simp only: of_nat_less_iff)
  then have d1: "d < 4294967296" by (simp add: d_def)
  have d0: "0 \<le> d" unfolding d_def by (rule of_nat_0_le_iff)
  have "ring_radius now s = 100 + amplitude s * 150 - d / 1000 * 50"
    unfolding d_def by (rule ring_radius_eq)
  then show ?thesis using assms d0 d1 by (simp add: abs_le_iff)
qed

lemma HSLtoRGB_ring_initial: "HSLtoRGB 0 0.8 0.6 = Some (234, 71, 71)"
  by (simp add: HSLtoRGB_def store_rgb_def fmod_def c_trunc_def float_to_Uint8_def Let_def)

lemma draw_visualization_exact:
  assumes "0 \<le> hue s"
    and "\<bar>ring_radius now s\<bar> \<le> 2147483247"
    and "\<forall>i<MAX_PARTICLES. 0 < lifetime (particles s i) \<longrightarrow>
           \<bar>p_x (particles s i) + p_dx (particles s i)\<bar> \<le> 2147483647 \<and>
           \<bar>p_y (particles s i) + p_dy (particles s i)\<bar> \<le> 2147483647"
  shows "\<exists>radius r g b r' g' b' s'.
     radius = 100 + amplitude s * 150 - real (unat (now - last_beat s)) / 1000 * 50 \<and>
     HSLtoRGB (hue s) 0.8 0.6 = Some (r, g, b) \<and>
     HSLtoRGB (hue s) 0.8 0.7 = Some (r', g', b') \<and>
     (let background = [SetRenderDrawColor 20 20 30 255, RenderClear];
          ring = concat (map (\<lambda>k.
               [SetRenderDrawColor r g b 255,
                RenderDrawPoint (c_trunc (400 + cos (real (2 * k) * pi / 180) * radius))
                                (c_trunc (400 + sin (real (2 * k) * pi / 180) * radius))])
               [0..<180]);
          dots = concat (map (\<lambda>i.
               [SetRenderDrawColor r' g' b' (alpha (particles s i) - 8),
                RenderDrawPoint (c_trunc (p_x (particles s i) + p_dx (particles s i)))
                                (c_trunc (p_y (particles s i) + p_dy (particles s i)))])
               (filter (\<lambda>i. 0 < lifetime (particles s i)) [0..<MAX_PARTICLES]))
      in draw_circle s (ren @ background) radius = Some (ren @ background @ ring) \<and>
         draw_particles s (ren @ background @ ring) = Some (ren @ background @ ring @ dots, s') \<and>
         draw_visualization now s ren = Some (ren @ background @ ring @ dots, s') \<and>
         length ring = 2 * 180)"
proof -
  define radius where "radius = ring_radius now s"
  define ren1 where "ren1 = ren @ [SetRenderDrawColor 20 20 30 255, RenderClear]"
  from HSLtoRGB_ring_defined [OF assms(1)] obtain r g b where
    c: "HSLtoRGB (hue s) 0.8 0.6 = Some (r, g, b)" by auto
  define ring where "ring = concat (map (\<lambda>k.
               [SetRenderDrawColor r g b 255,
                RenderDrawPoint (c_trunc (400 + cos (real (2 * k) * pi / 180) * radius))
                                (c_trunc (400 + sin (real (2 * k) * pi / 180) * radius))])
               [0..<180])"
  have "draw_circle_loop (2 * 0) (r, g, b) radius ren1 = Some (ren1 @ ring)"
    unfolding ring_def using assms(2) by (intro draw_circle_loop_from) (simp_all add: radius_def)
  then have dc: "draw_circle s ren1 radius = Some (ren1 @ ring)"
    using c by (simp add: draw_circle_def)
  from draw_particles_defined [OF assms(1,3)] obtain ren' s' where
    dp: "draw_particles s (ren1 @ ring) = Some (ren', s')" by fastforce
  from draw_particles_output [OF dp] obtain r' g' b' where
    c': "HSLtoRGB (hue s) 0.8 0.7 = Some (r', g', b')"
    and out: "ren' = (ren1 @ ring) @ concat (map (\<lambda>i.
               [SetRenderDrawColor r' g' b' (alpha (particles s i) - 8),
                RenderDrawPoint (c_trunc (p_x (particles s i) + p_dx (particles s i)))
                                (c_trunc (p_y (particles s i) + p_dy (particles s i)))])
               (filter (\<lambda>i. 0 < lifetime (particles s i)) [0..<MAX_PARTICLES]))"
    by blast
  define dots where "dots = concat (map (\<lambda>i.
               [SetRenderDrawColor r' g' b' (alpha (particles s i) - 8),
                RenderDrawPoint (c_trunc (p_x (particles s i) + p_dx (particles s i)))
                                (c_trunc (p_y (particles s i) + p_dy (particles s i)))])
               (filter (\<lambda>i. 0 < lifetime (particles s i)) [0..<MAX_PARTICLES]))"
  have dp': "draw_particles s (ren1 @ ring) = Some (ren1 @ ring @ dots, s')"
    using dp out by (simp add: dots_def)
  have dv: "draw_visualization now s ren = Some (ren1 @ ring @ dots, s')"
    using dc dp' by (simp add: draw_visualization_def Let_def ren1_def radius_def)
  have len: "length ring = 2 * 180"
    unfolding ring_def by (simp add: length_concat comp_def sum_list_triv)
  have rad: "radius = 100 + amplitude s * 150 - real (unat (now - last_beat s)) / 1000 * 50"
    unfolding radius_def by (rule ring_radius_eq)
  show ?thesis
    apply (rule exI [of _ radius], rule exI [of _ r], rule exI [of _ g], rule exI [of _ b])
    apply (rule exI [of _ r'], rule exI [of _ g'], rule exI [of _ b'], rule exI [of _ s'])
    unfolding Let_def
    using rad c c' dc dp' dv len
    unfolding ring_def dots_def ren1_def by simp
qed

lemma draw_visualization_defined:
  assumes "0 \<le> hue s"
    and "\<bar>ring_radius now s\<bar> \<le> 2147483247"
    and "\<forall>i<MAX_PARTICLES. 0 < lifetime (particles s i) \<longrightarrow>
           \<bar>p_x (particles s i) + p_dx (particles s i)\<bar> \<le> 2147483647 \<and>
           \<bar>p_y (particles s i) + p_dy (particles s i)\<bar> \<le> 2147483647"
  shows "\<exists>out. draw_visualization now s ren = Some out"
  using draw_visualization_exact [OF assms, of ren] unfolding Let_def by blast

text \<open>
  Claim C6. A frame computes \<open>beat_strength = (now - last_beat) / 1000\<close> (the difference
  of the two \<^verbatim>\<open>Uint32\<close> clock values) and \<open>radius = 100 + amplitude * 150 - beat_strength * 50\<close>
  and uses that radius as it is, negative or not. What the frame issues is exactly: the
  background colour and the clear; then the ring, which is what \<open>draw_circle\<close> adds, 180
  points and no more, the \<open>k\<close>-th at the angle of \<open>2 * k\<close> degrees around \<open>(400, 400)\<close> at
  that radius, each after setting the colour of the current hue at full opacity; then
  what \<open>draw_particles\<close> adds, one point for each active particle. The hypotheses are
  those under which every conversion of the frame is defined: a hue that is not
  negative, a radius and particle positions that fit an \<^verbatim>\<open>int\<close>. Every state of a run
  meets them (\<open>reachable_frame_conditions\<close> below).
\<close>

theorem ring_drawn_unclamped:
  assumes "0 \<le> hue s"
    and "\<bar>ring_radius now s\<bar> \<le> 2147483247"
    and "\<forall>i<MAX_PARTICLES. 0 < lifetime (particles s i) \<longrightarrow>
           \<bar>p_x (particles s i) + p_dx (particles s i)\<bar> \<le> 2147483647 \<and>
           \<bar>p_y (particles s i) + p_dy (particles s i)\<bar> \<le> 2147483647"
  shows "\<exists>radius r g b r' g' b' s'.
     radius = 100 + amplitude s * 150 - real (unat (now - last_beat s)) / 1000 * 50 \<and>
     HSLtoRGB (hue s) 0.8 0.6 = Some (r, g, b) \<and>
     HSLtoRGB (hue s) 0.8 0.7 = Some (r', g', b') \<and>
     (let background = [SetRenderDrawColor 20 20 30 255, RenderClear];
          ring = concat (map (\<lambda>k.
               [SetRenderDrawColor r g b 255,
                RenderDrawPoint (c_trunc (400 + cos (real (2 * k) * pi / 180) * radius))
                                (c_trunc (400 + sin (real (2 * k) * pi / 180) * radius))])
               [0..<180]);
          dots = concat (map (\<lambda>i.
               [SetRenderDrawColor r' g' b' (alpha (particles s i) - 8),
                RenderDrawPoint (c_trunc (p_x (particles s i) + p_dx (particles s i)))
                                (c_trunc (p_y (particles s i) + p_dy (particles s i)))])
               (filter (\<lambda>i. 0 < lifetime (particles s i)) [0..<MAX_PARTICLES]))
      in draw_circle s (ren @ background) radius = Some (ren @ background @ ring) \<and>
         draw_particles s (ren @ background @ ring) = Some (ren @ background @ ring @ dots, s') \<and>
         draw_visualization now s ren = Some (ren @ background @ ring @ dots, s') \<and>
         length ring = 2 * 180)"
  using assms by (rule draw_visualization_exact)

text \<open>Three seconds after the last beat and in silence the radius is \<open>-50\<close>; no particle is
  active, so the frame is the background and the ring.\<close>

theorem ring_drawn_unclamped_witness:
  "\<exists>s'.
     draw_circle initial_state [SetRenderDrawColor 20 20 30 255, RenderClear] (- 50) =
       Some ([SetRenderDrawColor 20 20 30 255, RenderClear] @
             concat (map (\<lambda>k.
               [SetRenderDrawColor 234 71 71 255,
                RenderDrawPoint (c_trunc (400 + cos (real (2 * k) * pi / 180) * (- 50)))
                                (c_trunc (400 + sin (real (2 * k) * pi / 180) * (- 50)))])
               [0..<180])) \<and>
     draw_visualization 3000 initial_state [] =
       Some ([SetRenderDrawColor 20 20 30 255, RenderClear] @
             concat (map (\<lambda>k.
               [SetRenderDrawColor 234 71 71 255,
                RenderDrawPoint (c_trunc (400 + cos (real (2 * k) * pi / 180) * (- 50)))
                                (c_trunc (400 + sin (real (2 * k) * pi / 180) * (- 50)))])
               [0..<180]), s')"
proof -
  have rr: "100 + amplitude initial_state * 150
              - real (unat (3000 - last_beat initial_state)) / 1000 * 50 = - 50"
    by (simp add: initial_state_def)
  have h1: "0 \<le> hue initial_state" by (simp add: initial_state_def)
  have h2: "\<bar>ring_radius 3000 initial_state\<bar> \<le> 2147483247"
    unfolding ring_radius_eq rr by simp
  have h3: "\<forall>i<MAX_PARTICLES. 0 < lifetime (particles initial_state i) \<longrightarrow>
           \<bar>p_x (particles initial_state i) + p_dx (particles initial_state i)\<bar> \<le> 2147483647 \<and>
           \<bar>p_y (particles initial_state i) + p_dy (particles initial_state i)\<bar> \<le> 2147483647"
    by (simp add: initial_state_def zero_particle_def)
  have c0: "HSLtoRGB (hue initial_state) 0.8 0.6 = Some (234, 71, 71)"
    using HSLtoRGB_ring_initial by (simp add: initial_state_def)
  have nodots: "filter (\<lambda>i. 0 < lifetime (particles initial_state i)) [0..<MAX_PARTICLES] = []"
    by (simp add: initial_state_def zero_particle_def)
  show ?thesis
    using ring_drawn_unclamped [OF h1 h2 h3, of "[]"]
    unfolding rr c0 nodots Let_def by auto
qed

section \<open>The states of a run\<close>

lemma new_particle_in_flight:
  assumes "r1 \<le> RAND_MAX" and "r2 \<le> RAND_MAX"
  shows "particle_in_flight (new_particle (r1, r2, r3))"
proof -
  define a where "a = rand_range r1 0 (pi * 2)"
  define speed where "speed = rand_range r2 1 3"
  have sp: "1 \<le> speed" "speed \<le> 3"
    using rand_range_bounds [OF assms(2), of 1 3] by (simp_all add: speed_def)
  have "\<bar>cos a * speed\<bar> \<le> 1 * speed"
    unfolding abs_mult using sp by (intro mult_mono) simp_all
  then have dx: "\<bar>cos a * speed\<bar> \<le> 3" using sp by simp
  have "\<bar>sin a * speed\<bar> \<le> 1 * speed"
    unfolding abs_mult using sp by (intro mult_mono) simp_all
  then have dy: "\<bar>sin a * speed\<bar> \<le> 3" using sp by simp
  have "int r3 mod 30 + 20 \<le> 49" by simp
  then have "real_of_int (int r3 mod 30 + 20) \<le> real_of_int 49" by (simp only: of_int_le_iff)
  then have lf: "3 * real_of_int (int r3 mod 30 + 20) \<le> 147" by simp
  show ?thesis
    unfolding new_particle_fields particle_in_flight_def
    using dx dy lf by (simp add: a_def speed_def)
qed

lemma advance_particle_in_flight:
  assumes "particle_in_flight p"
  shows "particle_in_flight (advance_particle p)"
proof -
  have "\<bar>p_x p + p_dx p - 400\<bar> \<le> \<bar>p_x p - 400\<bar> + \<bar>p_dx p\<bar>" by simp
  moreover have "\<bar>p_y p + p_dy p - 400\<bar> \<le> \<bar>p_y p - 400\<bar> + \<bar>p_dy p\<bar>" by simp
  ultimately show ?thesis
    using assms by (simp add: particle_in_flight_def advance_particle_fields)
qed

lemma audio_callback_in_range:
  assumes "state_in_range s" and "r1 \<le> RAND_MAX" and "r2 \<le> RAND_MAX"
    and "audio_callback now (r1, r2, r3) samples s = Some (onset, s')"
  shows "state_in_range s'"
proof -
  from audio_callback_SomeD [OF assms(4)] obtain energy where
    e: "buffer_energy samples = Some energy"
    and u: "audio_update now (r1, r2, r3) energy s = (onset, s')" by blast
  note f = audio_update_fields [OF u]
  have e01: "0 \<le> energy" "energy \<le> 1"
    using buffer_energy_nonneg [OF e] buffer_energy_le_one [OF e] by simp_all
  have s: "0 \<le> beat_energy s" "beat_energy s \<le> 1" "0 \<le> hue s"
    and ps: "\<forall>i<MAX_PARTICLES. 0 < lifetime (particles s i) \<longrightarrow> particle_in_flight (particles s i)"
    using assms(1) by (simp_all add: state_in_range_def)
  have h: "0 \<le> fmod (hue s + 0.3) 360" "fmod (hue s + 0.3) 360 < 360"
    using fmod_range [of "hue s + 0.3" 360] s(3) by simp_all
  have pool: "\<forall>i<MAX_PARTICLES. 0 < lifetime (particles s' i) \<longrightarrow> particle_in_flight (particles s' i)"
  proof (intro allI impI)
    fix i assume i: "i < MAX_PARTICLES" and l: "0 < lifetime (particles s' i)"
    from audio_update_slot [OF u]
    have "particles s' i = particles s i \<or> particles s' i = new_particle (r1, r2, r3)" .
    then show "particle_in_flight (particles s' i)"
      using ps i l new_particle_in_flight [OF assms(2,3)] by auto
  qed
  show ?thesis
    unfolding state_in_range_def using f e01 s h pool by simp
qed

lemma draw_visualization_state:
  assumes "draw_visualization now s renderer = Some (renderer', s')"
  shows "\<exists>renderer2. draw_particles s renderer2 = Some (renderer', s')"
  using assms by (auto simp: draw_visualization_def Let_def split: option.splits)

lemma draw_particles_in_range:
  assumes "state_in_range s" and "draw_particles s renderer = Some (renderer', s')"
  shows "state_in_range s'"
proof -
  note st = draw_particles_state [OF assms(2)]
  have ps: "\<forall>i<MAX_PARTICLES. 0 < lifetime (particles s i) \<longrightarrow> particle_in_flight (particles s i)"
    using assms(1) by (simp add: state_in_range_def)
  have "\<forall>i<MAX_PARTICLES. 0 < lifetime (particles s' i) \<longrightarrow> particle_in_flight (particles s' i)"
    using ps by (auto simp: st(5) advance_particle_in_flight)
  then show ?thesis
    using assms(1) by (simp add: state_in_range_def st(1-4))
qed

lemma draw_visualization_in_range:
  assumes "state_in_range s" and "draw_visualization now s renderer = Some (renderer', s')"
  shows "state_in_range s'"
  using draw_visualization_state [OF assms(2)] draw_particles_in_range [OF assms(1)] by blast

text \<open>Every state of a run is within the bounds.\<close>

lemma reachable_in_range: "reachable s \<Longrightarrow> state_in_range s"
proof (induction rule: reachable.induct)
  case start
  show ?case by (simp add: state_in_range_def initial_state_def zero_particle_def)
next
  case (audio s r1 r2 now r3 samples onset s')
  then show ?case by (intro audio_callback_in_range [of s r1 r2 now r3 samples onset s'])
next
  case (frame s now renderer renderer' s')
  then show ?case by (intro draw_visualization_in_range [of s now renderer renderer' s'])
qed

lemma reachable_beat_energy_nonneg: "reachable s \<Longrightarrow> 0 \<le> beat_energy s"
  using reachable_in_range [of s] by (simp add: state_in_range_def)

text \<open>Within the bounds every conversion of a frame is defined: the conditions under
  which the ring and the particles are drawn hold in every state of a run.\<close>

lemma state_in_range_frame_conditions:
  assumes "state_in_range s"
  shows "0 \<le> hue s" and "\<bar>ring_radius now s\<bar> \<le> 2147483247"
    and "\<forall>i<MAX_PARTICLES. 0 < lifetime (particles s i) \<longrightarrow>
           \<bar>p_x (particles s i) + p_dx (particles s i)\<bar> \<le> 2147483647 \<and>
           \<bar>p_y (particles s i) + p_dy (particles s i)\<bar> \<le> 2147483647"
proof -
  have a: "\<bar>amplitude s\<bar> \<le> 1"
    and ps: "\<forall>i<MAX_PARTICLES. 0 < lifetime (particles s i) \<longrightarrow> particle_in_flight (particles s i)"
    using assms by (simp_all add: state_in_range_def)
  show "0 \<le> hue s" using assms by (simp add: state_in_range_def)
  show "\<bar>ring_radius now s\<bar> \<le> 2147483247" using a by (rule ring_radius_bound)
  show "\<forall>i<MAX_PARTICLES. 0 < lifetime (particles s i) \<longrightarrow>
           \<bar>p_x (particles s i) + p_dx (particles s i)\<bar> \<le> 2147483647 \<and>
           \<bar>p_y (particles s i) + p_dy (particles s i)\<bar> \<le> 2147483647"
  proof (intro allI impI)
    fix i assume "i < MAX_PARTICLES" and l: "0 < lifetime (particles s i)"
    then have f: "particle_in_flight (particles s i)" using ps by simp
    have "0 < real_of_int (lifetime (particles s i))" using l by simp
    then show "\<bar>p_x (particles s i) + p_dx (particles s i)\<bar> \<le> 2147483647 \<and>
           \<bar>p_y (particles s i) + p_dy (particles s i)\<bar> \<le> 2147483647"
      using f unfolding particle_in_flight_def by (intro conjI; linarith)
  qed
qed

lemma reachable_frame_conditions:
  assumes "reachable s"
  shows "0 \<le> hue s \<and> \<bar>ring_radius now s\<bar> \<le> 2147483247 \<and>
         (\<forall>i<MAX_PARTICLES. 0 < lifetime (particles s i) \<longrightarrow>
           \<bar>p_x (particles s i) + p_dx (particles s i)\<bar> \<le> 2147483647 \<and>
           \<bar>p_y (particles s i) + p_dy (particles s i)\<bar> \<le> 2147483647)"
  using state_in_range_frame_conditions [OF reachable_in_range [OF assms]] by blast

lemma state_in_range_frame_defined:
  assumes "state_in_range s"
  shows "\<exists>out. draw_visualization now s renderer = Some out"
proof -
  note c = state_in_range_frame_conditions [OF assms]
  from draw_visualization_defined [OF c(1) c(2) c(3)] show ?thesis .
qed

lemma reachable_frame_defined:
  "reachable s \<Longrightarrow> \<exists>out. draw_visualization now s renderer = Some out"
  by (rule state_in_range_frame_defined) (rule reachable_in_range)

lemma state_in_range_steps_defined:
  "state_in_range s \<Longrightarrow> \<exists>out. draw_particles_steps k s renderer = Some out"
proof (induction k arbitrary: s renderer)
  case 0
  show ?case by simp
next
  case (Suc k)
  note c = state_in_range_frame_conditions [OF Suc.prems]
  from draw_particles_defined [OF c(1) c(3), of renderer] obtain renderer1 s1 where
    d: "draw_particles s renderer = Some (renderer1, s1)" by auto
  have "state_in_range s1" using Suc.prems d by (rule draw_particles_in_range)
  from Suc.IH [OF this, of renderer1] show ?case using d by simp
qed

lemma reachable_steps_defined:
  "reachable s \<Longrightarrow> \<exists>out. draw_particles_steps k s renderer = Some out"
  by (rule state_in_range_steps_defined) (rule reachable_in_range)

lemma fmod_small:
  assumes "0 \<le> a" and "a < b"
  shows "fmod a b = a"
proof -
  have "0 < b" using assms by simp
  then have "0 \<le> a / b" "a / b < 1" using assms by simp_all
  then have "\<lfloor>a / b\<rfloor> = 0" by linarith
  then show ?thesis using \<open>0 \<le> a / b\<close> by (simp add: fmod_def c_trunc_def)
qed

text \<open>The hue takes every multiple of 0.3 degrees below 360 in a run, so every sector
  of the colour conversion is asked for.\<close>

lemma reachable_hue:
  "k < 1200 \<Longrightarrow> \<exists>s. reachable s \<and> hue s = 3 / 10 * real k"
proof (induction k)
  case 0
  show ?case using reachable.start by (intro exI [of _ initial_state]) (simp add: initial_state_def)
next
  case (Suc k)
  then obtain s where s: "reachable s" "hue s = 3 / 10 * real k" by auto
  have e: "buffer_energy [0] = Some 0" by (simp add: buffer_energy_def)
  obtain onset s' where u: "audio_update 0 (0, 0, 0) 0 s = (onset, s')"
    by (cases "audio_update 0 (0, 0, 0) 0 s") auto
  have c: "audio_callback 0 (0, 0, 0) [0] s = Some (onset, s')"
    using e u by (simp add: audio_callback_def)
  have r: "reachable s'"
    using s(1) c by (intro reachable.audio [of s 0 0 0 0 "[0]" onset s']) simp_all
  have "real (Suc k) < 1200" using Suc.prems by simp
  then have "hue s + 0.3 < 360" "0 \<le> hue s + 0.3" using s(2) by simp_all
  then have "fmod (hue s + 0.3) 360 = hue s + 0.3" by (intro fmod_small)
  then have "hue s' = 3 / 10 * real (Suc k)"
    using audio_update_fields [OF u] s(2) by (simp add: algebra_simps)
  with r show ?case by blast
qed

lemma reachable_hue_330: "\<exists>s. reachable s \<and> hue s = 330"
  using reachable_hue [of 1100] by simp

subsection \<open>A buffer of zeros\<close>

text \<open>With a baseline that is not negative a buffer of zeros signals no onset.\<close>

lemma zero_buffer_quiet_nonneg:
  assumes "samples \<noteq> []" and "\<forall>w \<in> set samples. w = 0" and "0 \<le> beat_energy s"
  shows "\<exists>s'. audio_callback now rnd samples s = Some (False, s') \<and>
           amplitude s' = 0 \<and> last_beat s' = last_beat s \<and> particles s' = particles s \<and>
           hue s' = fmod (hue s + 0.3) 360 \<and>
           (\<exists>k::int. hue s' = hue s + 0.3 - 360 * real_of_int k)"
proof -
  have e: "buffer_energy samples = Some 0"
    using assms(1,2) by (rule buffer_energy_zero)
  obtain onset s' where u: "audio_update now rnd 0 s = (onset, s')"
    by (cases "audio_update now rnd 0 s") auto
  note f = audio_update_fields [OF u]
  have "\<not> onset" using f assms(3) by (simp add: BEAT_THRESHOLD_def)
  moreover have "\<exists>k::int. hue s' = hue s + 0.3 - 360 * real_of_int k"
    using f fmod_congruent [of "hue s + 0.3" 360] by simp
  ultimately show ?thesis
    using e u f by (simp add: audio_callback_def)
qed

text \<open>
  Claim C9. In any state of a run, one invocation on a buffer of samples that are all
  zero (at least one sample, as every buffer the program requests) sets \<open>amplitude\<close> to
  0, signals no onset, leaves \<open>last_beat\<close> and every slot of the pool as they were, and
  moves \<open>hue\<close> to \<open>fmod (hue + 0.3) 360\<close>, which is \<open>hue + 0.3\<close> up to a multiple of 360.
  The states of a run are those reached from the zero-initialised state by invocations
  of the callback and frames of the renderer; in them the baseline is never negative.
\<close>

theorem zero_buffer_quiet:
  assumes "reachable s" and "samples \<noteq> []" and "\<forall>w \<in> set samples. w = 0"
  shows "\<exists>s'. audio_callback now rnd samples s = Some (False, s') \<and>
           amplitude s' = 0 \<and> last_beat s' = last_beat s \<and> particles s' = particles s \<and>
           hue s' = fmod (hue s + 0.3) 360 \<and>
           (\<exists>k::int. hue s' = hue s + 0.3 - 360 * real_of_int k)"
  using assms(2,3) reachable_beat_energy_nonneg [OF assms(1)] by (rule zero_buffer_quiet_nonneg)

text \<open>The state after the first buffer of a run (baseline 0.1, one particle spawned at the
  clock 1000), then a buffer of zeros.\<close>

theorem zero_buffer_quiet_witness:
  "\<exists>s'. audio_callback 1046 (0, 0, 0) (replicate 2048 0)
       (initial_state\<lparr>amplitude := 1, beat_energy := 1 / 10, last_beat := 1000,
          particles := (particles initial_state)
            (0 := \<lparr>p_x = 400, p_y = 400, p_dx = 1, p_dy = 0, lifetime = 20, alpha = 255\<rparr>),
          hue := 3 / 10\<rparr>) = Some (False, s') \<and>
     amplitude s' = 0 \<and> last_beat s' = 1000 \<and>
     particles s' = (particles initial_state)
            (0 := \<lparr>p_x = 400, p_y = 400, p_dx = 1, p_dy = 0, lifetime = 20, alpha = 255\<rparr>) \<and>
     hue s' = 3 / 5"
proof -
  define s where "s = initial_state\<lparr>amplitude := 1, beat_energy := 1 / 10, last_beat := 1000,
          particles := (particles initial_state)
            (0 := \<lparr>p_x = 400, p_y = 400, p_dx = 1, p_dy = 0, lifetime = 20, alpha = 255\<rparr>),
          hue := 3 / 10\<rparr>"
  have c: "audio_callback 1000 (0, 0, 0) (replicate 2048 (- 32768)) initial_state = Some (True, s)"
    unfolding s_def
    by (simp add: audio_callback_def buffer_energy_replicate audio_update_def Let_def
      BEAT_THRESHOLD_def initial_state_def MAX_PARTICLES_def upt_rec [of 0 "numeral n" for n]
      zero_particle_def new_particle_def rand_range_def SCREEN_SIZE_def fmod_def c_trunc_def)
  have h1: "reachable s"
    using reachable.start _ _ c by (rule reachable.audio) simp_all
  have h2: "replicate 2048 (0 :: Sint16) \<noteq> []" by simp
  have h3: "\<forall>w \<in> set (replicate 2048 (0 :: Sint16)). w = 0" by simp
  have hue: "fmod (hue s + 0.3) 360 = 3 / 5"
    by (simp add: s_def fmod_def c_trunc_def)
  from zero_buffer_quiet [OF h1 h2 h3, of 1046 "(0, 0, 0)"] obtain s' where
    "audio_callback 1046 (0, 0, 0) (replicate 2048 0) s = Some (False, s')"
    "amplitude s' = 0" "last_beat s' = last_beat s" "particles s' = particles s"
    "hue s' = fmod (hue s + 0.3) 360" by blast
  then show ?thesis unfolding hue unfolding s_def by (intro exI [of _ s']) simp
qed

end
